theory Spec2Isabelle
  imports Complex_Main "HOL-Library.AList"
begin

section \<open>Strings\<close>

text \<open>
  A JavaScript string is modelled as a \<^typ>\<open>string\<close>: one \<^typ>\<open>char\<close> per code unit, so
  that \<^const>\<open>length\<close> is the \<^verbatim>\<open>.length\<close> of the source. The class \<^verbatim>\<open>\s\<close> of a regular
  expression holds, among the code units below 256, tab, line feed, vertical tab, form
  feed, carriage return, space and the no-break space.
\<close>

definition isSpace :: "char \<Rightarrow> bool" where
  "isSpace c = (of_char c \<in> {9, 10, 11, 12, 13, 32, 160 :: nat})"

text \<open>
  \<^verbatim>\<open>text.split(/\s+/)\<close>: the pieces between the maximal runs of whitespace. The piece
  before a leading run and the piece after a trailing run are empty strings, and the
  empty string splits into one empty piece.
\<close>

function split_ws :: "string \<Rightarrow> string list" where
  "split_ws s =
     (let tok = takeWhile (\<lambda>c. \<not> isSpace c) s;
          rest = dropWhile (\<lambda>c. \<not> isSpace c) s
      in if rest = [] then [tok] else tok # split_ws (dropWhile isSpace rest))"
  by pat_completeness auto
termination
proof (relation "measure length")
  show "wf (measure length)" by simp
next
  fix s :: string and tok rest
  assume "tok = takeWhile (\<lambda>c. \<not> isSpace c) s"
    and rest: "rest = dropWhile (\<lambda>c. \<not> isSpace c) s" and ne: "rest \<noteq> []"
  from rest ne have "isSpace (hd rest)"
    using hd_dropWhile[of "\<lambda>c. \<not> isSpace c" s] by auto
  with ne have "length (dropWhile isSpace rest) < length rest"
    by (cases rest) (auto simp: length_dropWhile_le less_Suc_eq_le)
  moreover have "length rest \<le> length s"
    using rest by (simp add: length_dropWhile_le)
  ultimately show "(dropWhile isSpace rest, s) \<in> measure length" by simp
qed

text \<open>\<^verbatim>\<open>words.join(" ")\<close>.\<close>

fun joinSp :: "string list \<Rightarrow> string" where
  "joinSp [] = []"
| "joinSp [w] = w"
| "joinSp (w # v # ws) = w @ '' '' @ joinSp (v # ws)"

section \<open>The chunker: chunkText of src/lib/utils.ts\<close>

text \<open>
  The \<^verbatim>\<open>for\<close> loop over the words, with its three mutable variables \<^verbatim>\<open>chunks\<close>,
  \<^verbatim>\<open>currentChunk\<close> and \<^verbatim>\<open>currentLength\<close> as arguments; the base case is the code after
  the loop. The chunk size is an integer (the worker passes 1000, which is also the
  default of the parameter).
\<close>

fun chunkLoop :: "int \<Rightarrow> string list \<Rightarrow> string list \<Rightarrow> string list \<Rightarrow> int \<Rightarrow> string list" where
  "chunkLoop chunkSize [] chunks currentChunk currentLength =
     (if length currentChunk > 0 then chunks @ [joinSp currentChunk] else chunks)"
| "chunkLoop chunkSize (word # words) chunks currentChunk currentLength =
     (let wordLength = int (length word) + 1 in
      if currentLength + wordLength > chunkSize \<and> length currentChunk > 0
      then chunkLoop chunkSize words (chunks @ [joinSp currentChunk]) [word] wordLength
      else chunkLoop chunkSize words chunks (currentChunk @ [word]) (currentLength + wordLength))"

definition chunkText :: "string \<Rightarrow> int \<Rightarrow> string list" where
  "chunkText text chunkSize = chunkLoop chunkSize (split_ws text) [] [] 0"

section \<open>JavaScript values\<close>

text \<open>
  The values that reach the pipeline from JSON bodies and metadata objects. A number is
  a real, an infinity or \<open>NaN\<close> (zero has no sign here); an object is the list of its
  properties in insertion order.
\<close>

datatype jsval =
    JUndefined | JNull | JBool bool | JNum real | JInfinity | JNegInfinity | JNaN
  | JStr string | JArr "jsval list" | JObj "(string \<times> jsval) list"

type_synonym jsobj = "(string \<times> jsval) list"

text \<open>Truthiness, as \<^verbatim>\<open>!v\<close>, \<^verbatim>\<open>a || b\<close> and \<^verbatim>\<open>c ? x : y\<close> read it.\<close>

fun truthy :: "jsval \<Rightarrow> bool" where
  "truthy JUndefined = False"
| "truthy JNull = False"
| "truthy (JBool b) = b"
| "truthy (JNum x) = (x \<noteq> 0)"
| "truthy JInfinity = True"
| "truthy JNegInfinity = True"
| "truthy JNaN = False"
| "truthy (JStr s) = (s \<noteq> [])"
| "truthy (JArr xs) = True"
| "truthy (JObj kvs) = True"

definition js_or :: "jsval \<Rightarrow> jsval \<Rightarrow> jsval" where
  "js_or a b = (if truthy a then a else b)"

text \<open>\<^verbatim>\<open>typeof v === "string"\<close>.\<close>

fun typeof_string :: "jsval \<Rightarrow> bool" where
  "typeof_string (JStr s) = True"
| "typeof_string v = False"

text \<open>
  \<^verbatim>\<open>obj.k\<close> is \<^verbatim>\<open>undefined\<close> for an absent property; \<^verbatim>\<open>{...obj, k: v}\<close> replaces the value
  of a property that is there and appends one that is not.
\<close>

definition getProp :: "jsobj \<Rightarrow> string \<Rightarrow> jsval" where
  "getProp obj k = (case map_of obj k of None \<Rightarrow> JUndefined | Some v \<Rightarrow> v)"

definition setProp :: "jsobj \<Rightarrow> string \<Rightarrow> jsval \<Rightarrow> jsobj" where
  "setProp obj k v = AList.update k v obj"

text \<open>
  What \<^verbatim>\<open>JSON.stringify\<close>, and so \<^verbatim>\<open>Response.json\<close>, writes of an object: a property
  whose value is \<^verbatim>\<open>undefined\<close> is left out.
\<close>

definition jsonProps :: "jsobj \<Rightarrow> jsobj" where
  "jsonProps obj = filter (\<lambda>(k, v). v \<noteq> JUndefined) obj"

text \<open>
  A property read on a parsed JSON value that is not \<^verbatim>\<open>null\<close>: objects have their
  properties, and none of the names read here exists on a number, string, boolean or
  array.
\<close>

fun valueProp :: "jsval \<Rightarrow> string \<Rightarrow> jsval" where
  "valueProp (JObj kvs) k = getProp kvs k"
| "valueProp v k = JUndefined"

text \<open>\<^verbatim>\<open>s.trim()\<close> and \<^verbatim>\<open>xs.join(sep)\<close>.\<close>

definition trim :: "string \<Rightarrow> string" where
  "trim s = rev (dropWhile isSpace (rev (dropWhile isSpace s)))"

fun joinWith :: "string \<Rightarrow> string list \<Rightarrow> string" where
  "joinWith sep [] = []"
| "joinWith sep [w] = w"
| "joinWith sep (w # v # ws) = w @ sep @ joinWith sep (v # ws)"

text \<open>Decimal rendering of an integer, as a template literal renders it.\<close>

fun showNat :: "nat \<Rightarrow> string" where
  "showNat n =
     (if n < 10 then [''0123456789'' ! n]
      else showNat (n div 10) @ [''0123456789'' ! (n mod 10)])"

declare showNat.simps [simp del]

definition showInt :: "int \<Rightarrow> string" where
  "showInt i = (if i < 0 then ''-'' @ showNat (nat (- i)) else showNat (nat i))"

text \<open>
  The Number value of a natural number: the nearest double, ties to the even mantissa;
  \<open>None\<close> stands for a value beyond the largest double, which is \<^verbatim>\<open>Infinity\<close>. Below
  \<open>2 ^ 53\<close> every natural number is a double.
\<close>

fun bitLength :: "nat \<Rightarrow> nat" where
  "bitLength n = (if n = 0 then 0 else Suc (bitLength (n div 2)))"

declare bitLength.simps [simp del]

definition toDouble :: "nat \<Rightarrow> nat option" where
  "toDouble v =
     (if v < 2 ^ 53 then Some v
      else (let e = bitLength v - 53;
                q = v div 2 ^ e;
                r = v mod 2 ^ e;
                q' = (if 2 * r > 2 ^ e \<or> (2 * r = 2 ^ e \<and> odd q) then q + 1 else q)
            in if q' * 2 ^ e \<ge> 2 ^ 1024 then None else Some (q' * 2 ^ e)))"

text \<open>
  \<^verbatim>\<open>parseInt(s, 10)\<close>: leading whitespace is skipped, a sign is read, and the longest
  run of decimal digits is the value, as a Number; with no digit the result is \<open>NaN\<close>.
  (For a run of more than twenty digits the language lets an engine read the later
  digits as zeros; the exact value is rounded here, as the V8 engine does.)
\<close>

definition isDigit :: "char \<Rightarrow> bool" where
  "isDigit c = (48 \<le> (of_char c :: nat) \<and> (of_char c :: nat) \<le> 57)"

definition digitVal :: "char \<Rightarrow> nat" where
  "digitVal c = of_char c - 48"

definition digitsValue :: "string \<Rightarrow> nat" where
  "digitsValue ds = foldl (\<lambda>a d. 10 * a + digitVal d) 0 ds"

definition parseInt10 :: "string \<Rightarrow> jsval" where
  "parseInt10 s =
     (let t = dropWhile isSpace s;
          neg = (case t of c # r \<Rightarrow> c = CHR ''-'' | [] \<Rightarrow> False);
          u = (case t of c # r \<Rightarrow> if c = CHR ''-'' \<or> c = CHR ''+'' then r else t | [] \<Rightarrow> t);
          ds = takeWhile isDigit u
      in if ds = [] then JNaN
         else (case toDouble (digitsValue ds) of
                 None \<Rightarrow> if neg then JNegInfinity else JInfinity
               | Some d \<Rightarrow> JNum (if neg then - real d else real d)))"

section \<open>Configuration: getRAGConfig and the clients\<close>

record env =
  RAG_API_KEY :: "string option"
  CRON_SECRET :: "string option"
  OPENAI_API_KEY :: "string option"
  PINECONE_API_KEY :: "string option"
  PINECONE_INDEX_NAME :: "string option"
  PINECONE_ENVIRONMENT :: "string option"
  EMBEDDING_MODEL :: "string option"
  EMBEDDING_DIMENSIONS :: "string option"
  LLM_MODEL :: "string option"
  TOP_K_RESULTS :: "string option"

text \<open>\<^verbatim>\<open>process.env.X || d\<close>: an unset and an empty variable both give the default.\<close>

definition env_or :: "string option \<Rightarrow> string \<Rightarrow> string" where
  "env_or v d = (case v of None \<Rightarrow> d | Some s \<Rightarrow> if s = [] then d else s)"

definition env_unset :: "string option \<Rightarrow> bool" where
  "env_unset v = (case v of None \<Rightarrow> True | Some s \<Rightarrow> s = [])"

record rag_config =
  embeddingModel :: string
  embeddingDimensions :: jsval
  llmModel :: string
  topKResults :: jsval
  pineconeIndexName :: string
  pineconeEnvironment :: string

definition getRAGConfig :: "env \<Rightarrow> rag_config" where
  "getRAGConfig e =
     \<lparr> embeddingModel = env_or (EMBEDDING_MODEL e) ''text-embedding-3-small'',
       embeddingDimensions = parseInt10 (env_or (EMBEDDING_DIMENSIONS e) ''1536''),
       llmModel = env_or (LLM_MODEL e) ''gpt-4-turbo-preview'',
       topKResults = parseInt10 (env_or (TOP_K_RESULTS e) ''5''),
       pineconeIndexName = env_or (PINECONE_INDEX_NAME e) [],
       pineconeEnvironment = env_or (PINECONE_ENVIRONMENT e) [] \<rparr>"

text \<open>
  What the code throws. Every value thrown in the pipeline is an \<^verbatim>\<open>Error\<close> with a
  message; \<open>NonError\<close> is there for the \<^verbatim>\<open>instanceof Error\<close> tests of the handlers.
\<close>

datatype thrown = Error string | NonError

text \<open>
  The client getters throw when their variable is unset. (They cache the client in a
  module variable; the environment does not change, so the test gives the same answer at
  every call.)
\<close>

definition getOpenAIClient :: "env \<Rightarrow> thrown + unit" where
  "getOpenAIClient e =
     (if env_unset (OPENAI_API_KEY e)
      then Inl (Error ''OPENAI_API_KEY environment variable is not set'')
      else Inr ())"

definition getPineconeClient :: "env \<Rightarrow> thrown + unit" where
  "getPineconeClient e =
     (if env_unset (PINECONE_API_KEY e)
      then Inl (Error ''PINECONE_API_KEY environment variable is not set'')
      else Inr ())"

definition getPineconeIndex :: "env \<Rightarrow> thrown + unit" where
  "getPineconeIndex e =
     (if env_unset (PINECONE_INDEX_NAME e)
      then Inl (Error ''PINECONE_INDEX_NAME environment variable is not set'')
      else getPineconeClient e)"

section \<open>Data contracts\<close>

text \<open>
  The interfaces of the types module, one record each, with the field names of the
  interface (behind a prefix where two interfaces share a name). A time stamp is the
  number of milliseconds that \<^verbatim>\<open>Date\<close> holds; its rendering by \<^verbatim>\<open>toISOString()\<close> is left
  out. The \<^verbatim>\<open>values\<close> of a vector document are optional, since the worker reads them
  from an array by index. The field \<^verbatim>\<open>blobUrl\<close> of a document to ingest is never read and
  is left out.
\<close>

record VectorSearchResult =
  sr_id :: string
  sr_score :: real
  sr_metadata :: jsobj

record VectorDocument =
  vd_id :: string
  vd_values :: "real list option"
  vd_metadata :: jsobj

record DocumentSource =
  src_id :: string
  src_content :: string
  src_score :: real
  src_metadata :: jsobj

record QueryMetadata =
  queryProcessingTimeMs :: int
  vectorSearchTimeMs :: int
  llmGenerationTimeMs :: int
  totalDocumentsSearched :: nat
  model :: string

record RAGQueryResponse =
  answer :: string
  sources :: "DocumentSource list"
  metadata :: QueryMetadata

record APIErrorResponse =
  err_error :: string
  err_message :: string
  err_statusCode :: nat
  err_timestamp :: int

record IngestionError =
  documentId :: string
  message :: string
  timestamp :: int

record DocumentToIngest =
  doc_id :: string
  doc_content :: string
  doc_metadata :: jsobj

record IngestionWorkerResponse =
  success :: bool
  jobId :: string
  documentsProcessed :: nat
  errors :: "IngestionError list"
  duration :: int

record EmbeddingResponse =
  er_embedding :: "real list"
  er_model :: string
  er_tokensUsed :: nat

text \<open>A match as the vector index returns it: score and metadata may be missing.\<close>

record pinecone_match =
  m_id :: string
  m_score :: "real option"
  m_metadata :: "jsobj option"

datatype http_body =
    ErrorBody APIErrorResponse
  | QueryBody RAGQueryResponse
  | IngestionBody IngestionWorkerResponse

record http_response =
  status :: nat
  body :: http_body
  headers :: "(string \<times> string) list"

text \<open>
  What the handlers read of a request: the authorization header, and the value that
  \<^verbatim>\<open>request.json()\<close> returns when the body is JSON.
\<close>

datatype json_result = InvalidJson | JsonBody jsval

record request =
  req_authorization :: "string option"
  req_json :: json_result

section \<open>External collaborators\<close>

text \<open>
  The services the pipeline calls are outside the program. Every call is recorded,
  with its arguments and its result, as an event at the end of a history; the result of
  a call is chosen by an oracle that sees the history so far, so that a service may
  answer the same call differently at different times. A result \<open>Inl s\<close> is a failed
  call, with \<open>s\<close> the text of the thrown value as a template literal renders it.

  \<^item> \<open>Now\<close>: a read of the clock, \<^verbatim>\<open>Date.now()\<close> or \<^verbatim>\<open>new Date()\<close>.
  \<^item> \<open>EmbeddingsCreate\<close>, \<open>EmbeddingsCreateBatch\<close>: \<^verbatim>\<open>openai.embeddings.create\<close> for one
    text and for a list of texts, with the model; the result is what the \<^verbatim>\<open>try\<close> block
    reads from the response, and a failure is anything thrown in that block.
  \<^item> \<open>IndexQuery\<close>: \<^verbatim>\<open>index.query\<close> with the vector and the top-K count; the result is
    \<^verbatim>\<open>queryResponse.matches\<close>, which may be missing.
  \<^item> \<open>IndexUpsert\<close>: \<^verbatim>\<open>index.upsert\<close>; \<open>None\<close> is success.
  \<^item> \<open>ChatCompletionsCreate\<close>: \<^verbatim>\<open>openai.chat.completions.create\<close> with the model and
    the two prompts; the result is the content of the first choice and the token count,
    either of which may be missing.
  \<^item> \<open>FetchUnprocessedDocuments\<close>: the worker's \<^verbatim>\<open>fetchUnprocessedDocuments\<close>, which
    reads the blob store and the database and catches every failure itself; it is taken
    as a whole, with the documents it returns.
  \<^item> \<open>SqlMarkIndexed\<close>, \<open>SqlInsertJob\<close>: the two SQL statements of the worker; the
    flag tells whether the statement succeeded, and the code ignores it.

  Output to the console is not modelled.
\<close>

datatype event =
    Now int
  | EmbeddingsCreate string string "string + real list \<times> nat"
  | EmbeddingsCreateBatch string "string list" "string + real list list"
  | IndexQuery "real list" jsval "string + pinecone_match list option"
  | IndexUpsert "VectorDocument list" "string option"
  | ChatCompletionsCreate string string string "string + string option \<times> nat option"
  | FetchUnprocessedDocuments "DocumentToIngest list"
  | SqlMarkIndexed string bool
  | SqlInsertJob string string nat nat "IngestionError list option" bool

type_synonym history = "event list"

record ext =
  clock :: "history \<Rightarrow> int"
  embeddings_create :: "history \<Rightarrow> string \<Rightarrow> string \<Rightarrow> string + real list \<times> nat"
  embeddings_create_batch :: "history \<Rightarrow> string \<Rightarrow> string list \<Rightarrow> string + real list list"
  index_query :: "history \<Rightarrow> real list \<Rightarrow> jsval \<Rightarrow> string + pinecone_match list option"
  index_upsert :: "history \<Rightarrow> VectorDocument list \<Rightarrow> string option"
  chat_completions_create ::
    "history \<Rightarrow> string \<Rightarrow> string \<Rightarrow> string \<Rightarrow> string + string option \<times> nat option"
  fetch_documents :: "history \<Rightarrow> DocumentToIngest list"
  sql_mark_indexed :: "history \<Rightarrow> string \<Rightarrow> bool"
  sql_insert_job ::
    "history \<Rightarrow> string \<Rightarrow> string \<Rightarrow> nat \<Rightarrow> nat \<Rightarrow> IngestionError list option \<Rightarrow> bool"

text \<open>\<^verbatim>\<open>Date.now()\<close>, and the class \<^verbatim>\<open>Timer\<close> built on it.\<close>

definition dateNow :: "ext \<Rightarrow> history \<Rightarrow> int \<times> history" where
  "dateNow x h = (clock x h, h @ [Now (clock x h)])"

definition newTimer :: "ext \<Rightarrow> history \<Rightarrow> int \<times> history" where
  "newTimer x h = dateNow x h"

definition elapsed :: "ext \<Rightarrow> int \<Rightarrow> history \<Rightarrow> int \<times> history" where
  "elapsed x startTime h = (let (t, h') = dateNow x h in (t - startTime, h'))"

section \<open>Utility functions of src/lib/utils.ts\<close>

text \<open>
  The key check: \<^verbatim>\<open>!expectedKey\<close> and \<^verbatim>\<open>!authHeader\<close> hold for a missing and for an empty
  string.
\<close>

definition validateAPIKey :: "request \<Rightarrow> env \<Rightarrow> bool" where
  "validateAPIKey req e =
     (case RAG_API_KEY e of
        None \<Rightarrow> False
      | Some expectedKey \<Rightarrow>
          if expectedKey = [] then False
          else (case req_authorization req of
                  None \<Rightarrow> False
                | Some authHeader \<Rightarrow>
                    if authHeader = [] then False
                    else (let providedKey =
                                (if take 7 authHeader = ''Bearer '' then drop 7 authHeader
                                 else authHeader)
                          in providedKey = expectedKey)))"

definition createErrorResponse ::
  "ext \<Rightarrow> string \<Rightarrow> string \<Rightarrow> nat \<Rightarrow> history \<Rightarrow> http_response \<times> history" where
  "createErrorResponse x err msg statusCode h =
     (let (t, h') = dateNow x h
      in (\<lparr> status = statusCode,
             body = ErrorBody \<lparr> err_error = err, err_message = msg,
                                err_statusCode = statusCode, err_timestamp = t \<rparr>,
             headers = [] \<rparr>, h'))"

fun handleError :: "ext \<Rightarrow> thrown \<Rightarrow> history \<Rightarrow> http_response \<times> history" where
  "handleError x (Error msg) h = createErrorResponse x ''InternalServerError'' msg 500 h"
| "handleError x NonError h =
     createErrorResponse x ''UnknownError'' ''An unexpected error occurred'' 500 h"

text \<open>
  The embedding functions. Their callers pass no model, so the model is the configured
  one. The client getter is called before the \<^verbatim>\<open>try\<close> block: what it throws is not
  wrapped.
\<close>

definition generateEmbedding ::
  "ext \<Rightarrow> env \<Rightarrow> string \<Rightarrow> history \<Rightarrow> (thrown + EmbeddingResponse) \<times> history" where
  "generateEmbedding x e text h =
     (let embeddingModel = embeddingModel (getRAGConfig e) in
      case getOpenAIClient e of
        Inl err \<Rightarrow> (Inl err, h)
      | Inr openai \<Rightarrow>
          (let r = embeddings_create x h embeddingModel text;
               h' = h @ [EmbeddingsCreate embeddingModel text r]
           in case r of
                Inl s \<Rightarrow> (Inl (Error (''Failed to generate embedding: '' @ s)), h')
              | Inr (embedding, tokens) \<Rightarrow>
                  (Inr \<lparr> er_embedding = embedding, er_model = embeddingModel,
                         er_tokensUsed = tokens \<rparr>, h')))"

definition generateEmbeddingsBatch ::
  "ext \<Rightarrow> env \<Rightarrow> string list \<Rightarrow> history \<Rightarrow> (thrown + real list list) \<times> history" where
  "generateEmbeddingsBatch x e texts h =
     (let embeddingModel = embeddingModel (getRAGConfig e) in
      case getOpenAIClient e of
        Inl err \<Rightarrow> (Inl err, h)
      | Inr openai \<Rightarrow>
          (let r = embeddings_create_batch x h embeddingModel texts;
               h' = h @ [EmbeddingsCreateBatch embeddingModel texts r]
           in case r of
                Inl s \<Rightarrow> (Inl (Error (''Failed to generate batch embeddings: '' @ s)), h')
              | Inr embeddings \<Rightarrow> (Inr embeddings, h')))"

text \<open>
  One match of the query response as a search result: \<^verbatim>\<open>match.score || 0\<close> and
  \<^verbatim>\<open>match.metadata || {}\<close>.
\<close>

definition matchToResult :: "pinecone_match \<Rightarrow> VectorSearchResult" where
  "matchToResult m =
     \<lparr> sr_id = m_id m,
       sr_score = (case m_score m of None \<Rightarrow> 0 | Some s \<Rightarrow> s),
       sr_metadata = (case m_metadata m of None \<Rightarrow> [] | Some md \<Rightarrow> md) \<rparr>"

text \<open>\<^verbatim>\<open>queryResponse.matches?.map(...) || []\<close>.\<close>

definition resultsOf :: "pinecone_match list option \<Rightarrow> VectorSearchResult list" where
  "resultsOf matches = (case matches of None \<Rightarrow> [] | Some ms \<Rightarrow> map matchToResult ms)"

definition vectorSearch ::
  "ext \<Rightarrow> env \<Rightarrow> real list \<Rightarrow> jsval \<Rightarrow> history \<Rightarrow>
   (thrown + VectorSearchResult list) \<times> history" where
  "vectorSearch x e queryEmbedding topK h =
     (let k = js_or topK (topKResults (getRAGConfig e)) in
      case getPineconeIndex e of
        Inl err \<Rightarrow> (Inl err, h)
      | Inr index \<Rightarrow>
          (let r = index_query x h queryEmbedding k;
               h' = h @ [IndexQuery queryEmbedding k r]
           in case r of
                Inl s \<Rightarrow> (Inl (Error (''Vector search failed: '' @ s)), h')
              | Inr matches \<Rightarrow> (Inr (resultsOf matches), h')))"

definition createVectorDocument ::
  "string \<Rightarrow> real list \<Rightarrow> string \<Rightarrow> jsobj \<Rightarrow> VectorDocument" where
  "createVectorDocument ident vals content md =
     \<lparr> vd_id = ident, vd_values = Some vals, vd_metadata = setProp md ''content'' (JStr content) \<rparr>"

text \<open>
  The metadata of a search result is an object by its type, so the \<^verbatim>\<open>?.\<close> of
  \<^verbatim>\<open>result.metadata?.content\<close> is a plain property read.
\<close>

definition extractContentFromSearchResult :: "VectorSearchResult \<Rightarrow> string" where
  "extractContentFromSearchResult result =
     (let content = getProp (sr_metadata result) ''content''
      in if typeof_string content then (case content of JStr s \<Rightarrow> s | _ \<Rightarrow> []) else [])"

definition upsertVectors ::
  "ext \<Rightarrow> env \<Rightarrow> VectorDocument list \<Rightarrow> history \<Rightarrow> (thrown + nat) \<times> history" where
  "upsertVectors x e documents h =
     (case getPineconeIndex e of
        Inl err \<Rightarrow> (Inl err, h)
      | Inr index \<Rightarrow>
          (let r = index_upsert x h documents;
               h' = h @ [IndexUpsert documents r]
           in case r of
                Some s \<Rightarrow> (Inl (Error (''Failed to upsert vectors: '' @ s)), h')
              | None \<Rightarrow> (Inr (length documents), h')))"

definition nl :: string where
  "nl = [CHR 0x0A]"

definition systemPrompt :: string where
  "systemPrompt =
     ''You are a helpful AI assistant. Answer the user'' @ [CHR 0x27] @
     ''s question based on the provided context.'' @ nl @
     ''If the context doesn'' @ [CHR 0x27] @
     ''t contain enough information to answer the question, say so.'' @ nl @
     ''Be concise and accurate.''"

definition generateRAGResponse ::
  "ext \<Rightarrow> env \<Rightarrow> string \<Rightarrow> string list \<Rightarrow> history \<Rightarrow>
   (thrown + string \<times> nat) \<times> history" where
  "generateRAGResponse x e query context h =
     (let config = getRAGConfig e in
      case getOpenAIClient e of
        Inl err \<Rightarrow> (Inl err, h)
      | Inr openai \<Rightarrow>
          (let contextText = joinWith (nl @ nl @ ''---'' @ nl @ nl) context;
               userPrompt = ''Context:'' @ nl @ contextText @ nl @ nl @ ''Question: '' @ query
                              @ nl @ nl @ ''Answer:'';
               r = chat_completions_create x h (llmModel config) systemPrompt userPrompt;
               h' = h @ [ChatCompletionsCreate (llmModel config) systemPrompt userPrompt r]
           in case r of
                Inl s \<Rightarrow> (Inl (Error (''Failed to generate response: '' @ s)), h')
              | Inr (content, total_tokens) \<Rightarrow>
                  (Inr (case content of
                          None \<Rightarrow> ''No response generated''
                        | Some a \<Rightarrow> if a = [] then ''No response generated'' else a,
                        case total_tokens of None \<Rightarrow> 0 | Some n \<Rightarrow> n), h')))"

section \<open>The query handler: POST of src/app/api/rag/query/route.ts\<close>

text \<open>
  One element of \<^verbatim>\<open>sources\<close> (step 7 of the handler). The object literal of the
  metadata view has its five properties in every case; a property whose value is not a
  string is \<^verbatim>\<open>undefined\<close>.
\<close>

definition stringOrUndefined :: "jsval \<Rightarrow> jsval" where
  "stringOrUndefined v = (if typeof_string v then v else JUndefined)"

definition toSource :: "jsval \<Rightarrow> VectorSearchResult \<Rightarrow> DocumentSource" where
  "toSource includeMetadata result =
     \<lparr> src_id = sr_id result,
       src_content = extractContentFromSearchResult result,
       src_score = sr_score result,
       src_metadata =
         (if truthy includeMetadata
          then [(''title'', stringOrUndefined (getProp (sr_metadata result) ''title'')),
                (''url'', stringOrUndefined (getProp (sr_metadata result) ''url'')),
                (''createdAt'', stringOrUndefined (getProp (sr_metadata result) ''createdAt'')),
                (''updatedAt'', stringOrUndefined (getProp (sr_metadata result) ''updatedAt'')),
                (''documentType'',
                   stringOrUndefined (getProp (sr_metadata result) ''documentType''))]
          else []) \<rparr>"

definition noInformationAnswer :: string where
  "noInformationAnswer =
     ''I couldn'' @ [CHR 0x27] @
     ''t find any relevant information to answer your question.''"

text \<open>
  Steps 3 to 7 of the handler, for a query that passed validation: embed, search,
  short-circuit on no result, generate, format. A thrown value leaves through \<open>Inl\<close> to
  the \<^verbatim>\<open>catch\<close> of the handler.
\<close>

definition answerQuery ::
  "ext \<Rightarrow> env \<Rightarrow> string \<Rightarrow> jsval \<Rightarrow> jsval \<Rightarrow> int \<Rightarrow> history \<Rightarrow>
   (thrown + http_response) \<times> history" where
  "answerQuery x e query maxResults includeMetadata totalTimer h =
     (let config = getRAGConfig e;
          (embeddingTimer, h1) = newTimer x h
      in case generateEmbedding x e query h1 of
           (Inl err, h2) \<Rightarrow> (Inl err, h2)
         | (Inr er, h2) \<Rightarrow>
     (let (embeddingTime, h3) = elapsed x embeddingTimer h2;
          (searchTimer, h4) = newTimer x h3
      in case vectorSearch x e (er_embedding er) (js_or maxResults (topKResults config)) h4 of
           (Inl err, h5) \<Rightarrow> (Inl err, h5)
         | (Inr searchResults, h5) \<Rightarrow>
     (let (searchTime, h6) = elapsed x searchTimer h5
      in if length searchResults = 0
         then (let (totalTime, h7) = elapsed x totalTimer h6
               in (Inr \<lparr> status = 200,
                         body = QueryBody
                           \<lparr> answer = noInformationAnswer,
                             sources = [],
                             metadata =
                               \<lparr> queryProcessingTimeMs = totalTime,
                                 vectorSearchTimeMs = searchTime,
                                 llmGenerationTimeMs = 0,
                                 totalDocumentsSearched = 0,
                                 model = llmModel config \<rparr> \<rparr>,
                         headers = [] \<rparr>, h7))
         else
     (let contextTexts = map extractContentFromSearchResult searchResults;
          (generationTimer, h7) = newTimer x h6
      in case generateRAGResponse x e query contextTexts h7 of
           (Inl err, h8) \<Rightarrow> (Inl err, h8)
         | (Inr generated, h8) \<Rightarrow>
     (let (generationTime, h9) = elapsed x generationTimer h8;
          srcs = map (toSource includeMetadata) searchResults;
          (totalTime, h10) = elapsed x totalTimer h9;
          (logged, h11) = elapsed x totalTimer h10;
          (header, h12) = elapsed x totalTimer h11
      in (Inr \<lparr> status = 200,
                body = QueryBody
                  \<lparr> answer = fst generated,
                    sources = srcs,
                    metadata =
                      \<lparr> queryProcessingTimeMs = totalTime,
                        vectorSearchTimeMs = searchTime,
                        llmGenerationTimeMs = generationTime,
                        totalDocumentsSearched = length searchResults,
                        model = llmModel config \<rparr> \<rparr>,
                headers = [(''Content-Type'', ''application/json''),
                           (''X-Processing-Time-Ms'', showInt header)] \<rparr>, h12))))))"

text \<open>
  \<^verbatim>\<open>!query || typeof query !== "string" || query.trim().length === 0\<close>, negated.
\<close>

definition validQuery :: "jsval \<Rightarrow> bool" where
  "validQuery query =
     (\<not> (\<not> truthy query \<or> \<not> typeof_string query
          \<or> (case query of JStr s \<Rightarrow> length (trim s) = 0 | _ \<Rightarrow> True)))"

text \<open>A destructuring default, \<^verbatim>\<open>{ v = d }\<close>: it applies to \<^verbatim>\<open>undefined\<close> only.\<close>

definition withDefault :: "jsval \<Rightarrow> jsval \<Rightarrow> jsval" where
  "withDefault v d = (if v = JUndefined then d else v)"

text \<open>
  Destructuring a body that is \<^verbatim>\<open>null\<close> throws a \<^verbatim>\<open>TypeError\<close>; the wording of its
  message is the engine's, and stands here as a fixed text.
\<close>

definition destructureNullMessage :: string where
  "destructureNullMessage = ''Cannot destructure property of null''"

text \<open>
  The \<^verbatim>\<open>try\<close> block of the handler: steps 1 and 2, then \<^const>\<open>answerQuery\<close>, and the
  handler itself, whose \<^verbatim>\<open>catch\<close> turns a thrown value into a response.
\<close>

definition POST_query_try ::
  "ext \<Rightarrow> env \<Rightarrow> request \<Rightarrow> int \<Rightarrow> history \<Rightarrow> (thrown + http_response) \<times> history" where
  "POST_query_try x e req totalTimer h =
     (if \<not> validateAPIKey req e
      then (let (r, h') = createErrorResponse x ''Unauthorized'' ''Invalid or missing API key'' 401 h
            in (Inr r, h'))
      else case req_json req of
             InvalidJson \<Rightarrow>
               (let (r, h') = createErrorResponse x ''BadRequest''
                                ''Invalid JSON in request body'' 400 h
                in (Inr r, h'))
           | JsonBody b \<Rightarrow>
               if b = JNull then (Inl (Error destructureNullMessage), h)
               else
                 (let query = valueProp b ''query'';
                      maxResults = valueProp b ''maxResults'';
                      includeMetadata = withDefault (valueProp b ''includeMetadata'') (JBool True)
                  in if \<not> validQuery query
                     then (let (r, h') = createErrorResponse x ''BadRequest''
                              ''Query parameter is required and must be a non-empty string''
                              400 h
                           in (Inr r, h'))
                     else answerQuery x e (case query of JStr s \<Rightarrow> s | _ \<Rightarrow> [])
                            maxResults includeMetadata totalTimer h))"

definition POST_query :: "ext \<Rightarrow> env \<Rightarrow> request \<Rightarrow> history \<Rightarrow> http_response \<times> history" where
  "POST_query x e req h =
     (let (totalTimer, h0) = newTimer x h
      in case POST_query_try x e req totalTimer h0 of
           (Inr response, h') \<Rightarrow> (response, h')
         | (Inl err, h') \<Rightarrow> handleError x err h')"

section \<open>The ingestion worker: POST of src/app/api/ingestion/worker/route.ts\<close>

text \<open>
  \<^verbatim>\<open>embeddings[index]\<close> is \<^verbatim>\<open>undefined\<close> beyond the end of the array.
\<close>

definition nthOpt :: "'a list \<Rightarrow> nat \<Rightarrow> 'a option" where
  "nthOpt xs i = (if i < length xs then Some (xs ! i) else None)"

text \<open>Step 3 of \<^verbatim>\<open>processDocument\<close>: \<^verbatim>\<open>chunks.map((chunk, index) => ...)\<close>.\<close>

definition vectorDocumentOf ::
  "DocumentToIngest \<Rightarrow> real list list \<Rightarrow> nat \<Rightarrow> nat \<Rightarrow> string \<Rightarrow> VectorDocument" where
  "vectorDocumentOf document embeddings totalChunks index chunk =
     \<lparr> vd_id = doc_id document @ ''_chunk_'' @ showNat index,
       vd_values = nthOpt embeddings index,
       vd_metadata =
         setProp (setProp (setProp (doc_metadata document) ''content'' (JStr chunk))
                    ''chunkIndex'' (JNum (real index)))
           ''totalChunks'' (JNum (real totalChunks)) \<rparr>"

definition vectorDocuments ::
  "DocumentToIngest \<Rightarrow> string list \<Rightarrow> real list list \<Rightarrow> VectorDocument list" where
  "vectorDocuments document chunks embeddings =
     map (\<lambda>index. vectorDocumentOf document embeddings (length chunks) index (chunks ! index))
       [0 ..< length chunks]"

definition processDocument ::
  "ext \<Rightarrow> env \<Rightarrow> DocumentToIngest \<Rightarrow> history \<Rightarrow> (thrown + unit) \<times> history" where
  "processDocument x e document h =
     (let chunks = chunkText (doc_content document) 1000
      in case generateEmbeddingsBatch x e chunks h of
           (Inl err, h1) \<Rightarrow> (Inl err, h1)
         | (Inr embeddings, h1) \<Rightarrow>
             (case upsertVectors x e (vectorDocuments document chunks embeddings) h1 of
                (Inl err, h2) \<Rightarrow> (Inl err, h2)
              | (Inr upserted, h2) \<Rightarrow>
                  (let ok = sql_mark_indexed x h2 (doc_id document)
                   in (Inr (), h2 @ [SqlMarkIndexed (doc_id document) ok]))))"

text \<open>\<^verbatim>\<open>error instanceof Error ? error.message : 'Unknown error'\<close>.\<close>

fun errorMessage :: "thrown \<Rightarrow> string" where
  "errorMessage (Error m) = m"
| "errorMessage NonError = ''Unknown error''"

text \<open>
  The \<^verbatim>\<open>for\<close> loop of step 3 of the handler, with \<^verbatim>\<open>errors\<close> and \<^verbatim>\<open>processedCount\<close>
  as arguments.
\<close>

fun processDocuments ::
  "ext \<Rightarrow> env \<Rightarrow> DocumentToIngest list \<Rightarrow> IngestionError list \<Rightarrow> nat \<Rightarrow> history \<Rightarrow>
   (IngestionError list \<times> nat) \<times> history" where
  "processDocuments x e [] errs processedCount h = ((errs, processedCount), h)"
| "processDocuments x e (document # documents) errs processedCount h =
     (case processDocument x e document h of
        (Inr u, h1) \<Rightarrow> processDocuments x e documents errs (processedCount + 1) h1
      | (Inl err, h1) \<Rightarrow>
          (let (t, h2) = dateNow x h1
           in processDocuments x e documents
                (errs @ [\<lparr> documentId = doc_id document, message = errorMessage err,
                           timestamp = t \<rparr>])
                processedCount h2))"

definition updateJobStatus ::
  "ext \<Rightarrow> string \<Rightarrow> nat \<Rightarrow> nat \<Rightarrow> IngestionError list \<Rightarrow> history \<Rightarrow> history" where
  "updateJobStatus x job processed documentsTotal errs h =
     (let jobStatus = (if length errs = 0 then ''completed'' else ''failed'');
          errorLog = (if length errs > 0 then Some errs else None);
          ok = sql_insert_job x h job jobStatus processed documentsTotal errorLog
      in h @ [SqlInsertJob job jobStatus processed documentsTotal errorLog ok])"

text \<open>
  The handler from the fetched documents on: the answer for no document, otherwise
  steps 3 and 4 and the response.
\<close>

definition runIngestionJob ::
  "ext \<Rightarrow> env \<Rightarrow> string \<Rightarrow> int \<Rightarrow> DocumentToIngest list \<Rightarrow> history \<Rightarrow>
   http_response \<times> history" where
  "runIngestionJob x e job totalTimer documents h =
     (if length documents = 0
      then (let (d, h1) = elapsed x totalTimer h
            in (\<lparr> status = 200,
                   body = IngestionBody
                     \<lparr> success = True, jobId = job, documentsProcessed = 0, errors = [],
                       duration = d \<rparr>,
                   headers = [] \<rparr>, h1))
      else
        (let ((errs, processedCount), h1) = processDocuments x e documents [] 0 h;
             h2 = updateJobStatus x job processedCount (length documents) errs h1;
             (d, h3) = elapsed x totalTimer h2;
             (logged, h4) = elapsed x totalTimer h3
         in (\<lparr> status = 200,
                body = IngestionBody
                  \<lparr> success = (length errs = 0), jobId = job,
                    documentsProcessed = processedCount, errors = errs, duration = d \<rparr>,
                headers = [(''Content-Type'', ''application/json'')] \<rparr>, h4)))"

text \<open>
  The handler: timer and job id, step 1 (the cron secret, when one is configured), step 2
  (fetching), then \<^const>\<open>runIngestionJob\<close>. Nothing in its \<^verbatim>\<open>try\<close> block throws, since the
  loop, the fetching and the job record catch what their calls throw; so its \<^verbatim>\<open>catch\<close>
  has no case here.
\<close>

definition fetchUnprocessedDocuments :: "ext \<Rightarrow> history \<Rightarrow> DocumentToIngest list \<times> history" where
  "fetchUnprocessedDocuments x h =
     (fetch_documents x h, h @ [FetchUnprocessedDocuments (fetch_documents x h)])"

definition POST_ingestion :: "ext \<Rightarrow> env \<Rightarrow> request \<Rightarrow> history \<Rightarrow> http_response \<times> history" where
  "POST_ingestion x e req h =
     (let (totalTimer, h0) = newTimer x h;
          (t, h1) = dateNow x h0;
          job = ''ingest_'' @ showInt t
      in if (case CRON_SECRET e of
               None \<Rightarrow> False
             | Some cronSecret \<Rightarrow>
                 cronSecret \<noteq> [] \<and> req_authorization req \<noteq> Some (''Bearer '' @ cronSecret))
         then createErrorResponse x ''Unauthorized'' ''Invalid cron secret'' 401 h1
         else (let (documents, h2) = fetchUnprocessedDocuments x h1
               in runIngestionJob x e job totalTimer documents h2))"

section \<open>Notions used in the statements about the chunker\<close>

text \<open>
  The groups of words behind the chunks: what \<^const>\<open>chunkLoop\<close> would return if it
  pushed \<^verbatim>\<open>currentChunk\<close> itself instead of its join. Used to state and prove the
  properties of the chunks.
\<close>

fun chunkGroups :: "int \<Rightarrow> string list \<Rightarrow> string list \<Rightarrow> int \<Rightarrow> string list list" where
  "chunkGroups n [] cur len = (if cur = [] then [] else [cur])"
| "chunkGroups n (w # ws) cur len =
     (if len + (int (length w) + 1) > n \<and> cur \<noteq> []
      then cur # chunkGroups n ws [w] (int (length w) + 1)
      else chunkGroups n ws (cur @ [w]) (len + (int (length w) + 1)))"

definition weight :: "string list \<Rightarrow> int" where
  "weight g = (\<Sum>w\<leftarrow>g. int (length w) + 1)"

text \<open>
  The whitespace-normalised form of a text in the sense of the specification: its tokens,
  the non-empty maximal runs of non-whitespace, joined by single spaces.
\<close>

definition normalizeWs :: "string \<Rightarrow> string" where
  "normalizeWs text = joinSp (filter (\<lambda>w. w \<noteq> []) (split_ws text))"

section \<open>Notions used in the statements\<close>

subsection \<open>Events of a run\<close>

fun isIndexQuery :: "event \<Rightarrow> bool" where
  "isIndexQuery (IndexQuery v k r) = True"
| "isIndexQuery ev = False"

fun isChatCompletion :: "event \<Rightarrow> bool" where
  "isChatCompletion (ChatCompletionsCreate m s u r) = True"
| "isChatCompletion ev = False"

text \<open>The top-K count that a request with the given \<^verbatim>\<open>maxResults\<close> asks the index for.\<close>

definition topKOf :: "env \<Rightarrow> jsval \<Rightarrow> jsval" where
  "topKOf e maxResults =
     (if truthy maxResults then maxResults else topKResults (getRAGConfig e))"

definition maxResultsOf :: "request \<Rightarrow> jsval" where
  "maxResultsOf req =
     (case req_json req of InvalidJson \<Rightarrow> JUndefined | JsonBody b \<Rightarrow> valueProp b ''maxResults'')"

definition includeMetadataOf :: "request \<Rightarrow> jsval" where
  "includeMetadataOf req =
     (case req_json req of
        InvalidJson \<Rightarrow> JBool True
      | JsonBody b \<Rightarrow> withDefault (valueProp b ''includeMetadata'') (JBool True))"

text \<open>
  What the events \<open>evs\<close> of one run of \<^const>\<open>answerQuery\<close> and its result have to do with
  each other; \<open>postRun\<close> is the same for a run of the whole handler.
\<close>

definition queryRun ::
  "env \<Rightarrow> jsval \<Rightarrow> jsval \<Rightarrow> (thrown + http_response) \<Rightarrow> event list \<Rightarrow> bool" where
  "queryRun e maxResults includeMetadata res evs =
     ((\<forall>v k r. IndexQuery v k r \<in> set evs \<longrightarrow> k = topKOf e maxResults) \<and>
      (\<forall>v k ms. IndexQuery v k (Inr ms) \<in> set evs \<and> resultsOf ms = [] \<longrightarrow>
         (\<forall>ev\<in>set evs. \<not> isChatCompletion ev) \<and>
         (\<exists>resp b. res = Inr resp \<and> status resp = 200 \<and> body resp = QueryBody b \<and>
            answer b = noInformationAnswer \<and> sources b = [] \<and>
            llmGenerationTimeMs (metadata b) = 0 \<and> totalDocumentsSearched (metadata b) = 0)) \<and>
      (\<forall>resp. res = Inr resp \<longrightarrow>
         status resp = 200 \<and>
         (\<exists>b v k ms. body resp = QueryBody b \<and> IndexQuery v k (Inr ms) \<in> set evs \<and>
            sources b = map (toSource includeMetadata) (resultsOf ms))))"

definition postRun :: "env \<Rightarrow> jsval \<Rightarrow> jsval \<Rightarrow> http_response \<Rightarrow> event list \<Rightarrow> bool" where
  "postRun e maxResults includeMetadata resp evs =
     ((\<forall>v k r. IndexQuery v k r \<in> set evs \<longrightarrow> k = topKOf e maxResults) \<and>
      (\<forall>v k ms. IndexQuery v k (Inr ms) \<in> set evs \<and> resultsOf ms = [] \<longrightarrow>
         (\<forall>ev\<in>set evs. \<not> isChatCompletion ev) \<and> status resp = 200 \<and>
         (\<exists>b. body resp = QueryBody b \<and>
            answer b = noInformationAnswer \<and> sources b = [] \<and>
            llmGenerationTimeMs (metadata b) = 0 \<and> totalDocumentsSearched (metadata b) = 0)) \<and>
      (\<forall>b. body resp = QueryBody b \<longrightarrow>
         (\<exists>v k ms. IndexQuery v k (Inr ms) \<in> set evs \<and>
            sources b = map (toSource includeMetadata) (resultsOf ms))))"

text \<open>The keys of the metadata view of a source.\<close>

definition recognizedKeys :: "string list" where
  "recognizedKeys = [''title'', ''url'', ''createdAt'', ''updatedAt'', ''documentType'']"

subsection \<open>Outcomes of an ingestion run\<close>

text \<open>
  What happens to each document of a batch, in order, when the documents are processed
  one after the other from the history \<open>h\<close>: every document is processed in the history
  that its predecessors left, whether they failed or not, and a failure is recorded with
  its message and with the time read when it is caught.
\<close>

datatype outcome = Processed | Failed string int

fun documentOutcomes :: "ext \<Rightarrow> env \<Rightarrow> DocumentToIngest list \<Rightarrow> history \<Rightarrow> outcome list" where
  "documentOutcomes x e [] h = []"
| "documentOutcomes x e (document # documents) h =
     (case processDocument x e document h of
        (Inr u, h1) \<Rightarrow> Processed # documentOutcomes x e documents h1
      | (Inl err, h1) \<Rightarrow>
          Failed (errorMessage err) (clock x h1)
            # documentOutcomes x e documents (h1 @ [Now (clock x h1)]))"

text \<open>One error entry for each failed document, in the order of the documents.\<close>

fun errorsOf :: "(DocumentToIngest \<times> outcome) list \<Rightarrow> IngestionError list" where
  "errorsOf [] = []"
| "errorsOf ((d, Processed) # r) = errorsOf r"
| "errorsOf ((d, Failed m t) # r) =
     \<lparr> documentId = doc_id d, message = m, timestamp = t \<rparr> # errorsOf r"

section \<open>Sample inputs\<close>

definition sampleEnv :: env where
  "sampleEnv =
     \<lparr> RAG_API_KEY = Some ''secret'', CRON_SECRET = None, OPENAI_API_KEY = Some ''sk-1'',
       PINECONE_API_KEY = Some ''pc-1'', PINECONE_INDEX_NAME = Some ''rag'',
       PINECONE_ENVIRONMENT = None, EMBEDDING_MODEL = None, EMBEDDING_DIMENSIONS = None,
       LLM_MODEL = None, TOP_K_RESULTS = None \<rparr>"

definition sampleEnvTopK7 :: env where
  "sampleEnvTopK7 = sampleEnv \<lparr> TOP_K_RESULTS := Some ''7'' \<rparr>"

definition sampleMatches :: "pinecone_match list" where
  "sampleMatches =
     [\<lparr> m_id = ''doc1_chunk_0'', m_score = Some (9 / 10),
        m_metadata = Some [(''title'', JStr ''Guide''), (''content'', JStr ''alpha beta''),
                           (''chunkIndex'', JNum 0), (''url'', JNum 7)] \<rparr>,
      \<lparr> m_id = ''doc2_chunk_3'', m_score = None, m_metadata = None \<rparr>]"

text \<open>
  Collaborators that always succeed: the clock advances by ten for every event, the
  embedding of a text is its length, and the index returns the given matches.
\<close>

definition sampleExt :: "pinecone_match list \<Rightarrow> ext" where
  "sampleExt matches =
     \<lparr> clock = (\<lambda>h. 1000 + 10 * int (length h)),
       embeddings_create = (\<lambda>h m t. Inr ([1, 0], 3)),
       embeddings_create_batch = (\<lambda>h m ts. Inr (map (\<lambda>t. [real (length t)]) ts)),
       index_query = (\<lambda>h v k. Inr (Some matches)),
       index_upsert = (\<lambda>h ds. None),
       chat_completions_create = (\<lambda>h m s u. Inr (Some ''An answer.'', Some 42)),
       fetch_documents = (\<lambda>h. []),
       sql_mark_indexed = (\<lambda>h d. True),
       sql_insert_job = (\<lambda>h j s p n l. True) \<rparr>"

text \<open>The same, but the batch embedding of the text \<open>bad\<close> fails.\<close>

definition flakyExt :: ext where
  "flakyExt =
     (sampleExt [])
       \<lparr> embeddings_create_batch :=
           (\<lambda>h m ts. if ts = [''bad''] then Inl ''Error: 429''
                      else Inr (map (\<lambda>t. [real (length t)]) ts)) \<rparr>"

definition sampleRequest :: "jsobj \<Rightarrow> request" where
  "sampleRequest props =
     \<lparr> req_authorization = Some ''Bearer secret'',
       req_json = JsonBody (JObj ((''query'', JStr ''what is alpha?'') # props)) \<rparr>"

definition sampleDocumentA :: DocumentToIngest where
  "sampleDocumentA =
     \<lparr> doc_id = ''a.txt'', doc_content = ''first document'',
       doc_metadata = [(''title'', JStr ''A''), (''content'', JStr ''stale'')] \<rparr>"

definition sampleDocumentB :: DocumentToIngest where
  "sampleDocumentB = \<lparr> doc_id = ''b.txt'', doc_content = ''bad'', doc_metadata = [] \<rparr>"

definition sampleDocumentC :: DocumentToIngest where
  "sampleDocumentC =
     \<lparr> doc_id = ''c.txt'', doc_content = ''third'', doc_metadata = [(''title'', JStr ''C'')] \<rparr>"

text \<open>A document of three words of 600, 700 and 800 characters.\<close>

definition sampleDocumentLong :: DocumentToIngest where
  "sampleDocumentLong =
     \<lparr> doc_id = ''long.txt'',
       doc_content = replicate 600 (CHR ''a'') @ '' '' @ replicate 700 (CHR ''b'') @ '' ''
                       @ replicate 800 (CHR ''c''),
       doc_metadata = [(''title'', JStr ''L''), (''content'', JStr ''stale'')] \<rparr>"

section \<open>Properties of the chunker\<close>

lemma chunkLoop_groups:
  "chunkLoop n ws chunks cur len = chunks @ map joinSp (chunkGroups n ws cur len)"
  by (induction ws arbitrary: chunks cur len) (simp_all add: Let_def)

lemma concat_chunkGroups: "concat (chunkGroups n ws cur len) = cur @ ws"
  by (induction ws arbitrary: cur len) simp_all

lemma chunkGroups_nonempty: "g \<in> set (chunkGroups n ws cur len) \<Longrightarrow> g \<noteq> []"
  by (induction ws arbitrary: cur len) (auto split: if_splits)

lemma chunkGroups_weight:
  "g \<in> set (chunkGroups n ws cur len) \<Longrightarrow> len = weight cur \<Longrightarrow>
   length cur \<le> 1 \<or> weight cur \<le> n \<Longrightarrow> length g = 1 \<or> weight g \<le> n"
proof (induction ws arbitrary: cur len)
  case Nil
  then show ?case by (cases cur) (auto split: if_splits)
next
  case (Cons w ws)
  show ?case
  proof (cases "len + (int (length w) + 1) > n \<and> cur \<noteq> []")
    case True
    with Cons.prems(1) have "g = cur \<or> g \<in> set (chunkGroups n ws [w] (int (length w) + 1))"
      by simp
    then show ?thesis
    proof
      assume "g = cur"
      with Cons.prems(3) True show ?thesis by (cases cur) auto
    next
      assume "g \<in> set (chunkGroups n ws [w] (int (length w) + 1))"
      then show ?thesis by (rule Cons.IH) (simp_all add: weight_def)
    qed
  next
    case False
    with Cons.prems(1) have g: "g \<in> set (chunkGroups n ws (cur @ [w]) (len + (int (length w) + 1)))"
      by auto
    show ?thesis
    proof (rule Cons.IH[OF g])
      show "len + (int (length w) + 1) = weight (cur @ [w])"
        using Cons.prems(2) by (simp add: weight_def)
      show "length (cur @ [w]) \<le> 1 \<or> weight (cur @ [w]) \<le> n"
        using False Cons.prems(2) by (cases "cur = []") (auto simp: weight_def)
    qed
  qed
qed

lemma length_joinSp: "g \<noteq> [] \<Longrightarrow> int (length (joinSp g)) = weight g - 1"
  by (induction g rule: joinSp.induct) (simp_all add: weight_def)

lemma weight_nonneg: "0 \<le> weight g"
  by (induction g) (simp_all add: weight_def)

lemma weight_member: "w \<in> set g \<Longrightarrow> int (length w) + 1 \<le> weight g"
proof (induction g)
  case Nil
  then show ?case by simp
next
  case (Cons v g)
  have "weight (v # g) = int (length v) + 1 + weight g" by (simp add: weight_def)
  with Cons weight_nonneg[of g] show ?case by auto
qed

lemma joinSp_append:
  "a \<noteq> [] \<Longrightarrow> b \<noteq> [] \<Longrightarrow> joinSp (a @ b) = joinSp a @ '' '' @ joinSp b"
proof (induction a rule: joinSp.induct)
  case 1
  then show ?case by simp
next
  case (2 w)
  then show ?case by (cases b) simp_all
next
  case (3 w v ws)
  then show ?case by simp
qed

lemma joinSp_concat:
  "\<forall>g\<in>set gs. g \<noteq> [] \<Longrightarrow> joinSp (map joinSp gs) = joinSp (concat gs)"
proof (induction gs)
  case Nil
  then show ?case by simp
next
  case (Cons g gs)
  show ?case
  proof (cases gs)
    case Nil
    then show ?thesis by simp
  next
    case (Cons h hs)
    with Cons.prems have ne: "g \<noteq> []" "concat gs \<noteq> []" by auto
    have "joinSp (map joinSp (g # gs)) = joinSp g @ '' '' @ joinSp (map joinSp gs)"
      using Cons by simp
    also have "\<dots> = joinSp g @ '' '' @ joinSp (concat gs)"
      using Cons.IH Cons.prems by simp
    also have "\<dots> = joinSp (concat (g # gs))"
      using joinSp_append[OF ne] by simp
    finally show ?thesis .
  qed
qed

text \<open>
  Claim C1. For a chunk size \<open>n > 0\<close> the chunks are the joins of consecutive non-empty
  groups of the words of the text, and every chunk has length at most \<open>n\<close> unless it is
  a single word longer than \<open>n\<close>; a word longer than \<open>n\<close> is always alone in its group,
  so it is never split and never shares a chunk.
\<close>

theorem chunkText_size_invariant:
  assumes "0 < n"
  shows "\<exists>groups. concat groups = split_ws text \<and> chunkText text n = map joinSp groups \<and>
           (\<forall>g\<in>set groups. g \<noteq> [] \<and>
              (int (length (joinSp g)) \<le> n \<or> (\<exists>w. g = [w] \<and> n < int (length w))) \<and>
              (\<forall>w\<in>set g. n < int (length w) \<longrightarrow> g = [w]))"
proof -
  let ?gs = "chunkGroups n (split_ws text) [] 0"
  have a: "concat ?gs = split_ws text" by (simp add: concat_chunkGroups)
  have b: "chunkText text n = map joinSp ?gs" by (simp add: chunkText_def chunkLoop_groups)
  have c: "g \<noteq> [] \<and> (int (length (joinSp g)) \<le> n \<or> (\<exists>w. g = [w] \<and> n < int (length w))) \<and>
              (\<forall>w\<in>set g. n < int (length w) \<longrightarrow> g = [w])" if g: "g \<in> set ?gs" for g
  proof -
    have ne: "g \<noteq> []" using g by (rule chunkGroups_nonempty)
    have w: "length g = 1 \<or> weight g \<le> n"
      using g by (rule chunkGroups_weight) (simp_all add: weight_def)
    show ?thesis
    proof (cases "weight g \<le> n")
      case True
      with length_joinSp[OF ne] have "int (length (joinSp g)) \<le> n" by simp
      moreover have "\<forall>w\<in>set g. \<not> n < int (length w)"
        using weight_member[of _ g] True by fastforce
      ultimately show ?thesis using ne by blast
    next
      case False
      with w have "length g = 1" by simp
      then obtain v where v: "g = [v]" by (cases g) auto
      then show ?thesis by auto
    qed
  qed
  from a b c show ?thesis by blast
qed

theorem chunkText_size_invariant_witness:
  "(0::int) < 6 \<and>
   chunkText ''aa bb cc dddddddd e'' 6 = [''aa bb'', ''cc'', ''dddddddd'', ''e''] \<and>
   (\<exists>groups. concat groups = split_ws ''aa bb cc dddddddd e'' \<and>
      chunkText ''aa bb cc dddddddd e'' 6 = map joinSp groups \<and>
      (\<forall>g\<in>set groups. g \<noteq> [] \<and>
         (int (length (joinSp g)) \<le> 6 \<or> (\<exists>w. g = [w] \<and> 6 < int (length w))) \<and>
         (\<forall>w\<in>set g. 6 < int (length w) \<longrightarrow> g = [w])))"
proof -
  have h: "(0::int) < 6" by simp
  have e: "chunkText ''aa bb cc dddddddd e'' 6 = [''aa bb'', ''cc'', ''dddddddd'', ''e'']"
    by (simp add: chunkText_def isSpace_def)
  from h e chunkText_size_invariant[OF h, of "''aa bb cc dddddddd e''"] show ?thesis by blast
qed

text \<open>
  The chunks rejoined with single spaces are the pieces of \<^const>\<open>split_ws\<close> joined with
  single spaces: no piece is dropped, duplicated or reordered.
\<close>

lemma chunkText_rejoin: "joinSp (chunkText text n) = joinSp (split_ws text)"
proof -
  have "joinSp (map joinSp (chunkGroups n (split_ws text) [] 0))
          = joinSp (concat (chunkGroups n (split_ws text) [] 0))"
    by (rule joinSp_concat) (auto dest: chunkGroups_nonempty)
  then show ?thesis
    by (simp add: chunkText_def chunkLoop_groups concat_chunkGroups)
qed

text \<open>
  Claim C2. The rejoined chunks are not the whitespace-normalised text when the text
  starts or ends with whitespace: the empty piece that \<^const>\<open>split_ws\<close> returns there is
  packed like a word, and the chunk keeps a space for it.
\<close>

theorem chunkText_coverage_fails:
  "joinSp (chunkText ''hello world '' 1000) = ''hello world '' \<and>
   normalizeWs ''hello world '' = ''hello world'' \<and>
   joinSp (chunkText ''   '' 1000) = '' '' \<and> normalizeWs ''   '' = []"
  by (simp add: chunkText_def normalizeWs_def isSpace_def)

text \<open>
  Claim C3. The empty string yields one empty chunk for every chunk size, and a string
  of three spaces yields one chunk holding a space: neither yields the empty sequence.
\<close>

theorem chunkText_empty_input:
  "chunkText [] n = [[]] \<and> chunkText ''   '' 1000 = ['' ''] \<and>
   chunkText ''   '' 1 = [[], []]"
  by (simp add: chunkText_def isSpace_def)

text \<open>
  Claim C9. \<^const>\<open>chunkText\<close> reads its two arguments only (its three variables are
  initialised at every call), so two calls with identical arguments return identical
  sequences.
\<close>

theorem chunkText_deterministic:
  "T = T' \<Longrightarrow> n = n' \<Longrightarrow> chunkText T n = chunkText T' n'"
  by simp

theorem chunkText_deterministic_witness:
  "chunkText ''to be or not'' 6 = chunkText ''to be or not'' 6 \<and>
   chunkText ''to be or not'' 6 = [''to be'', ''or'', ''not'']"
proof -
  have "chunkText ''to be or not'' 6 = [''to be'', ''or'', ''not'']"
    by (simp add: chunkText_def isSpace_def)
  with chunkText_deterministic[OF refl refl, of "''to be or not''" 6] show ?thesis by simp
qed

section \<open>Properties of the number renderings\<close>

text \<open>
  \<^const>\<open>showNat\<close> writes decimal digits whose value is the number, so it is injective;
  and \<^const>\<open>parseInt10\<close> reads the rendering of a number below \<open>2 ^ 53\<close> back as that
  number, and rounds beyond.
\<close>

lemma digit_nth:
  assumes "m < 10"
  shows "digitVal (''0123456789'' ! m) = m" and "isDigit (''0123456789'' ! m)"
proof -
  from assms have "m \<in> {0, 1, 2, 3, 4, 5, 6, 7, 8, 9}" by auto
  then show "digitVal (''0123456789'' ! m) = m" and "isDigit (''0123456789'' ! m)"
    by (auto simp: digitVal_def isDigit_def)
qed

lemma digitsValue_snoc: "digitsValue (ds @ [d]) = 10 * digitsValue ds + digitVal d"
  by (simp add: digitsValue_def)

lemma showNat_value: "digitsValue (showNat n) = n"
proof (induction n rule: showNat.induct)
  case (1 n)
  show ?case
  proof (cases "n < 10")
    case True
    then show ?thesis
      by (subst showNat.simps) (simp add: digitsValue_def digit_nth)
  next
    case False
    have "digitsValue (showNat n) = 10 * digitsValue (showNat (n div 10)) + digitVal (''0123456789'' ! (n mod 10))"
      using False by (subst showNat.simps) (simp add: digitsValue_snoc)
    also have "\<dots> = 10 * (n div 10) + n mod 10"
      using "1.IH"[OF False] by (simp add: digit_nth)
    finally show ?thesis by simp
  qed
qed

lemma showNat_digits: "showNat n \<noteq> [] \<and> (\<forall>c\<in>set (showNat n). isDigit c)"
proof (induction n rule: showNat.induct)
  case (1 n)
  show ?case
  proof (cases "n < 10")
    case True
    then show ?thesis by (subst (1 2) showNat.simps) (simp add: digit_nth)
  next
    case False
    with "1.IH" show ?thesis by (subst (1 2) showNat.simps) (simp add: digit_nth)
  qed
qed

lemma showNat_inj: "showNat a = showNat b \<Longrightarrow> a = b"
  by (metis showNat_value)

lemma isDigit_plain: "isDigit c \<Longrightarrow> \<not> isSpace c \<and> c \<noteq> CHR ''-'' \<and> c \<noteq> CHR ''+''"
  by (auto simp: isDigit_def isSpace_def)

lemma parseInt10_showNat:
  assumes "n < 2 ^ 53"
  shows "parseInt10 (showNat n) = JNum (real n)"
proof -
  from showNat_digits[of n] obtain c cs where s: "showNat n = c # cs" and d: "\<forall>c\<in>set (showNat n). isDigit c"
    by (cases "showNat n") auto
  from d s have c: "\<not> isSpace c" "c \<noteq> CHR ''-''" "c \<noteq> CHR ''+''" using isDigit_plain[of c] by auto
  have t: "takeWhile isDigit (showNat n) = showNat n" using d by (simp add: takeWhile_eq_all_conv)
  have "parseInt10 (c # cs) = JNum (real n)"
    using c t[unfolded s] showNat_value[of n, unfolded s] assms
    by (simp add: parseInt10_def toDouble_def Let_def)
  then show ?thesis by (simp add: s)
qed

lemma parseInt10_rounds: "parseInt10 ''9007199254740993'' = JNum 9007199254740992"
  by (simp add: parseInt10_def toDouble_def bitLength.simps Let_def isDigit_def isSpace_def
      digitVal_def digitsValue_def)

lemma parseInt10_no_digit: "parseInt10 ''abc'' = JNaN" "parseInt10 '' -12px'' = JNum (- 12)"
  by (simp_all add: parseInt10_def toDouble_def Let_def isDigit_def isSpace_def
      digitVal_def digitsValue_def)

section \<open>Properties of the utility functions and of the vector records\<close>

lemma getProp_setProp: "getProp (setProp obj k v) k' = (if k' = k then v else getProp obj k')"
  by (simp add: getProp_def setProp_def update_conv')

lemma map_of_setProp: "map_of (setProp obj k v) = (map_of obj)(k \<mapsto> v)"
  by (simp add: setProp_def update_conv')

text \<open>
  Claim C8. Extracting the content of a search result always returns a string: the
  content entry of the metadata when that entry is a string, and the empty string when
  the entry is missing or is anything else.
\<close>

theorem extractContent_total:
  "(map_of (sr_metadata result) ''content'' = Some (JStr s)
      \<longrightarrow> extractContentFromSearchResult result = s) \<and>
   ((\<forall>t. map_of (sr_metadata result) ''content'' \<noteq> Some (JStr t))
      \<longrightarrow> extractContentFromSearchResult result = [])"
proof (cases "map_of (sr_metadata result) ''content''")
  case None
  then show ?thesis by (simp add: extractContentFromSearchResult_def getProp_def)
next
  case (Some v)
  then show ?thesis
    by (cases v) (simp_all add: extractContentFromSearchResult_def getProp_def)
qed

theorem extractContent_total_witness:
  "extractContentFromSearchResult
     \<lparr> sr_id = ''doc_chunk_0'', sr_score = 1 / 2,
       sr_metadata = [(''title'', JStr ''T''), (''content'', JStr ''some text'')] \<rparr> = ''some text'' \<and>
   extractContentFromSearchResult
     \<lparr> sr_id = ''doc_chunk_1'', sr_score = 1 / 2, sr_metadata = [(''content'', JNum 7)] \<rparr> = [] \<and>
   extractContentFromSearchResult
     \<lparr> sr_id = ''doc_chunk_2'', sr_score = 1 / 2, sr_metadata = [(''title'', JStr ''T'')] \<rparr> = []"
  using
    extractContent_total[of "\<lparr> sr_id = ''doc_chunk_0'', sr_score = 1 / 2,
       sr_metadata = [(''title'', JStr ''T''), (''content'', JStr ''some text'')] \<rparr>" "''some text''"]
    extractContent_total[of "\<lparr> sr_id = ''doc_chunk_1'', sr_score = 1 / 2,
       sr_metadata = [(''content'', JNum 7)] \<rparr>" "[]"]
    extractContent_total[of "\<lparr> sr_id = ''doc_chunk_2'', sr_score = 1 / 2,
       sr_metadata = [(''title'', JStr ''T'')] \<rparr>" "[]"]
  by simp

text \<open>\<^verbatim>\<open>createVectorDocument\<close> overrides a content entry of the metadata it is given.\<close>

lemma createVectorDocument_content:
  "map_of (vd_metadata (createVectorDocument ident vals content md)) ''content''
     = Some (JStr content)"
  by (simp add: createVectorDocument_def map_of_setProp)

lemma length_vectorDocuments [simp]:
  "length (vectorDocuments document chunks embeddings) = length chunks"
  by (simp add: vectorDocuments_def)

lemma nth_vectorDocuments:
  "i < length chunks \<Longrightarrow>
   vectorDocuments document chunks embeddings ! i =
     vectorDocumentOf document embeddings (length chunks) i (chunks ! i)"
  by (simp add: vectorDocuments_def)

lemma processDocument_upsert:
  assumes "getOpenAIClient e = Inr ()" and "getPineconeIndex e = Inr ()"
    and "embeddings_create_batch x h (embeddingModel (getRAGConfig e))
           (chunkText (doc_content document) 1000) = Inr embeddings"
  shows "\<exists>r. IndexUpsert (vectorDocuments document (chunkText (doc_content document) 1000) embeddings) r
           \<in> set (drop (length h) (snd (processDocument x e document h)))"
  using assms
  by (auto simp: processDocument_def generateEmbeddingsBatch_def upsertVectors_def Let_def
      split: option.splits)

lemma split_ws_word: "\<forall>c\<in>set w. \<not> isSpace c \<Longrightarrow> split_ws w = [w]"
  by (subst split_ws.simps) (simp add: takeWhile_eq_all_conv dropWhile_eq_Nil_conv Let_def)

lemma split_ws_space:
  assumes "\<forall>c\<in>set w. \<not> isSpace c" and "isSpace s"
  shows "split_ws (w @ s # rest) = w # split_ws (dropWhile isSpace rest)"
proof -
  have t: "takeWhile (\<lambda>c. \<not> isSpace c) (w @ s # rest) = w"
    using assms by (simp add: takeWhile_append2)
  have d: "dropWhile (\<lambda>c. \<not> isSpace c) (w @ s # rest) = s # rest"
    using assms by (simp add: dropWhile_append2)
  show ?thesis
    by (subst split_ws.simps) (simp add: t d assms(2) Let_def)
qed

lemma distinct_vectorDocument_ids:
  "distinct (map vd_id (vectorDocuments document chunks embeddings))"
proof -
  have "map vd_id (vectorDocuments document chunks embeddings)
          = map (\<lambda>i. doc_id document @ ''_chunk_'' @ showNat i) [0 ..< length chunks]"
    by (simp add: vectorDocuments_def vectorDocumentOf_def)
  moreover have "inj_on (\<lambda>i. doc_id document @ ''_chunk_'' @ showNat i) (set [0 ..< length chunks])"
    by (rule inj_onI) (simp add: showNat_inj)
  ultimately show ?thesis by (simp add: distinct_map)
qed

text \<open>
  Claim C6. When the clients are configured and the batch embedding of the \<open>N\<close> chunks
  of a document returns \<open>N\<close> vectors, processing the document upserts \<open>N\<close> records with
  pairwise distinct ids, and for every \<open>i < N\<close> the \<open>i\<close>-th record has the id
  \<open>{documentId}_chunk_{i}\<close>, where \<open>{i}\<close> is the decimal numeral of \<open>i\<close>, the \<open>i\<close>-th
  vector, and a metadata object whose content is the text of the \<open>i\<close>-th chunk (whatever
  content the document's own metadata had), whose chunkIndex is \<open>i\<close> and whose totalChunks
  is \<open>N\<close>; every other key is as in the document's metadata.
\<close>

theorem vector_records_index_aligned:
  assumes "chunks = chunkText (doc_content document) 1000"
    and "getOpenAIClient e = Inr ()" and "getPineconeIndex e = Inr ()"
    and "embeddings_create_batch x h (embeddingModel (getRAGConfig e)) chunks = Inr embeddings"
    and "length embeddings = length chunks"
  shows "\<exists>records r.
           IndexUpsert records r \<in> set (drop (length h) (snd (processDocument x e document h))) \<and>
           length records = length chunks \<and>
           distinct (map vd_id records) \<and>
           (\<forall>i<length chunks.
              vd_id (records ! i) = doc_id document @ ''_chunk_'' @ showNat i \<and>
              digitsValue (showNat i) = i \<and>
              vd_values (records ! i) = Some (embeddings ! i) \<and>
              map_of (vd_metadata (records ! i)) ''content'' = Some (JStr (chunks ! i)) \<and>
              map_of (vd_metadata (records ! i)) ''chunkIndex'' = Some (JNum (real i)) \<and>
              map_of (vd_metadata (records ! i)) ''totalChunks''
                = Some (JNum (real (length chunks))) \<and>
              (\<forall>k. k \<notin> {''content'', ''chunkIndex'', ''totalChunks''} \<longrightarrow>
                 map_of (vd_metadata (records ! i)) k = map_of (doc_metadata document) k))"
proof -
  let ?records = "vectorDocuments document chunks embeddings"
  from processDocument_upsert[OF assms(2,3) assms(4)[unfolded assms(1)]] assms(1)
  obtain r where r: "IndexUpsert ?records r \<in> set (drop (length h) (snd (processDocument x e document h)))"
    by auto
  have each: "vd_id (?records ! i) = doc_id document @ ''_chunk_'' @ showNat i \<and>
              digitsValue (showNat i) = i \<and>
              vd_values (?records ! i) = Some (embeddings ! i) \<and>
              map_of (vd_metadata (?records ! i)) ''content'' = Some (JStr (chunks ! i)) \<and>
              map_of (vd_metadata (?records ! i)) ''chunkIndex'' = Some (JNum (real i)) \<and>
              map_of (vd_metadata (?records ! i)) ''totalChunks''
                = Some (JNum (real (length chunks))) \<and>
              (\<forall>k. k \<notin> {''content'', ''chunkIndex'', ''totalChunks''} \<longrightarrow>
                 map_of (vd_metadata (?records ! i)) k = map_of (doc_metadata document) k)"
    if i: "i < length chunks" for i
  proof -
    have n: "?records ! i = vectorDocumentOf document embeddings (length chunks) i (chunks ! i)"
      using i by (rule nth_vectorDocuments)
    have "vd_values (?records ! i) = Some (embeddings ! i)"
      using assms(5) i by (simp add: n vectorDocumentOf_def nthOpt_def)
    moreover have "vd_id (?records ! i) = doc_id document @ ''_chunk_'' @ showNat i"
      by (simp add: n vectorDocumentOf_def)
    moreover have "map_of (vd_metadata (?records ! i)) ''content'' = Some (JStr (chunks ! i))"
      "map_of (vd_metadata (?records ! i)) ''chunkIndex'' = Some (JNum (real i))"
      "map_of (vd_metadata (?records ! i)) ''totalChunks'' = Some (JNum (real (length chunks)))"
      "\<forall>k. k \<notin> {''content'', ''chunkIndex'', ''totalChunks''} \<longrightarrow>
                map_of (vd_metadata (?records ! i)) k = map_of (doc_metadata document) k"
      by (simp_all add: n vectorDocumentOf_def map_of_setProp)
    ultimately show ?thesis by (simp add: showNat_value)
  qed
  have "length ?records = length chunks" by simp
  with r distinct_vectorDocument_ids[of document chunks embeddings] each
  show ?thesis by (intro exI[of _ ?records] exI[of _ r] conjI allI impI) simp_all
qed

lemma list3: "length xs = 3 \<Longrightarrow> xs = [xs ! 0, xs ! 1, xs ! 2]"
  by (cases xs; cases "tl xs"; cases "tl (tl xs)") auto

lemma sample_long_chunks:
  "chunkText (doc_content sampleDocumentLong) 1000 =
     [replicate 600 (CHR ''a''), replicate 700 (CHR ''b''), replicate 800 (CHR ''c'')]"
proof -
  let ?a = "replicate 600 (CHR ''a'')" and ?b = "replicate 700 (CHR ''b'')"
    and ?c = "replicate 800 (CHR ''c'')"
  have a: "\<forall>c\<in>set ?a. \<not> isSpace c" and b: "\<forall>c\<in>set ?b. \<not> isSpace c"
    and c: "\<forall>c\<in>set ?c. \<not> isSpace c"
    by (simp_all add: isSpace_def)
  have sp: "isSpace (CHR '' '')" by (simp add: isSpace_def)
  have db: "dropWhile isSpace (?b @ CHR '' '' # ?c) = ?b @ CHR '' '' # ?c"
    by (simp add: dropWhile_eq_self_iff hd_append isSpace_def)
  have dc: "dropWhile isSpace ?c = ?c"
    by (simp add: dropWhile_eq_self_iff isSpace_def)
  have "split_ws (?a @ CHR '' '' # ?b @ CHR '' '' # ?c)
          = ?a # split_ws (dropWhile isSpace (?b @ CHR '' '' # ?c))"
    using a sp by (rule split_ws_space)
  also have "\<dots> = ?a # split_ws (?b @ CHR '' '' # ?c)" by (simp only: db)
  also have "\<dots> = ?a # ?b # split_ws (dropWhile isSpace ?c)"
    by (simp only: split_ws_space[OF b sp])
  also have "\<dots> = ?a # ?b # split_ws ?c" by (simp only: dc)
  also have "\<dots> = [?a, ?b, ?c]" by (simp only: split_ws_word[OF c])
  finally have "split_ws (?a @ CHR '' '' # ?b @ CHR '' '' # ?c) = [?a, ?b, ?c]" .
  then show ?thesis
    by (simp add: sampleDocumentLong_def chunkText_def)
qed

theorem vector_records_index_aligned_witness:
  "chunkText (doc_content sampleDocumentLong) 1000 =
     [replicate 600 (CHR ''a''), replicate 700 (CHR ''b''), replicate 800 (CHR ''c'')] \<and>
   map_of (doc_metadata sampleDocumentLong) ''content'' = Some (JStr ''stale'') \<and>
   (\<exists>records r.
      IndexUpsert records r
        \<in> set (snd (processDocument (sampleExt []) sampleEnv sampleDocumentLong [])) \<and>
      map vd_id records = [''long.txt_chunk_0'', ''long.txt_chunk_1'', ''long.txt_chunk_2''] \<and>
      map vd_values records = [Some [600], Some [700], Some [800]] \<and>
      map (\<lambda>record. map_of (vd_metadata record) ''content'') records =
        [Some (JStr (replicate 600 (CHR ''a''))), Some (JStr (replicate 700 (CHR ''b''))),
         Some (JStr (replicate 800 (CHR ''c'')))] \<and>
      map (\<lambda>record. map_of (vd_metadata record) ''chunkIndex'') records =
        [Some (JNum 0), Some (JNum 1), Some (JNum 2)] \<and>
      map (\<lambda>record. map_of (vd_metadata record) ''totalChunks'') records =
        [Some (JNum 3), Some (JNum 3), Some (JNum 3)] \<and>
      map (\<lambda>record. map_of (vd_metadata record) ''title'') records =
        [Some (JStr ''L''), Some (JStr ''L''), Some (JStr ''L'')])"
proof -
  let ?a = "replicate 600 (CHR ''a'')" and ?b = "replicate 700 (CHR ''b'')"
    and ?c = "replicate 800 (CHR ''c'')"
  let ?chunks = "[?a, ?b, ?c]"
  let ?embeddings = "[[600], [700], [800 :: real]]"
  have h1: "?chunks = chunkText (doc_content sampleDocumentLong) 1000"
    by (simp add: sample_long_chunks)
  have h2: "getOpenAIClient sampleEnv = Inr ()"
    by (simp add: getOpenAIClient_def env_unset_def sampleEnv_def)
  have h3: "getPineconeIndex sampleEnv = Inr ()"
    by (simp add: getPineconeIndex_def getPineconeClient_def env_unset_def sampleEnv_def)
  have h4: "embeddings_create_batch (sampleExt []) [] (embeddingModel (getRAGConfig sampleEnv))
              ?chunks = Inr ?embeddings"
    by (simp add: sampleExt_def)
  have h5: "length ?embeddings = length ?chunks" by simp
  have m: "map_of (doc_metadata sampleDocumentLong) ''content'' = Some (JStr ''stale'')"
    by (simp add: sampleDocumentLong_def)
  have ids: "doc_id sampleDocumentLong @ ''_chunk_'' @ showNat 0 = ''long.txt_chunk_0''"
    "doc_id sampleDocumentLong @ ''_chunk_'' @ showNat 1 = ''long.txt_chunk_1''"
    "doc_id sampleDocumentLong @ ''_chunk_'' @ showNat 2 = ''long.txt_chunk_2''"
    by (simp_all add: sampleDocumentLong_def showNat.simps del: One_nat_def)
  have ti: "map_of (doc_metadata sampleDocumentLong) ''title'' = Some (JStr ''L'')"
    by (simp add: sampleDocumentLong_def)
  have "\<exists>records r.
      IndexUpsert records r
        \<in> set (snd (processDocument (sampleExt []) sampleEnv sampleDocumentLong [])) \<and>
      map vd_id records = [''long.txt_chunk_0'', ''long.txt_chunk_1'', ''long.txt_chunk_2''] \<and>
      map vd_values records = [Some [600], Some [700], Some [800]] \<and>
      map (\<lambda>record. map_of (vd_metadata record) ''content'') records =
        [Some (JStr ?a), Some (JStr ?b), Some (JStr ?c)] \<and>
      map (\<lambda>record. map_of (vd_metadata record) ''chunkIndex'') records =
        [Some (JNum 0), Some (JNum 1), Some (JNum 2)] \<and>
      map (\<lambda>record. map_of (vd_metadata record) ''totalChunks'') records =
        [Some (JNum 3), Some (JNum 3), Some (JNum 3)] \<and>
      map (\<lambda>record. map_of (vd_metadata record) ''title'') records =
        [Some (JStr ''L''), Some (JStr ''L''), Some (JStr ''L'')]"
    using vector_records_index_aligned[OF h1 h2 h3 h4 h5]
  proof (elim exE conjE)
    fix records r
    assume u: "IndexUpsert records r
          \<in> set (drop (length []) (snd (processDocument (sampleExt []) sampleEnv sampleDocumentLong [])))"
      and len: "length records = length ?chunks"
      and each: "\<forall>i<length ?chunks.
              vd_id (records ! i) = doc_id sampleDocumentLong @ ''_chunk_'' @ showNat i \<and>
              digitsValue (showNat i) = i \<and>
              vd_values (records ! i) = Some (?embeddings ! i) \<and>
              map_of (vd_metadata (records ! i)) ''content'' = Some (JStr (?chunks ! i)) \<and>
              map_of (vd_metadata (records ! i)) ''chunkIndex'' = Some (JNum (real i)) \<and>
              map_of (vd_metadata (records ! i)) ''totalChunks''
                = Some (JNum (real (length ?chunks))) \<and>
              (\<forall>k. k \<notin> {''content'', ''chunkIndex'', ''totalChunks''} \<longrightarrow>
                 map_of (vd_metadata (records ! i)) k = map_of (doc_metadata sampleDocumentLong) k)"
    from len have l3: "length records = 3" by simp
    note shape = list3[OF l3]
    have e0: "vd_id (records ! 0) = ''long.txt_chunk_0''"
        "vd_values (records ! 0) = Some [600]"
        "map_of (vd_metadata (records ! 0)) ''content'' = Some (JStr ?a)"
        "map_of (vd_metadata (records ! 0)) ''chunkIndex'' = Some (JNum 0)"
        "map_of (vd_metadata (records ! 0)) ''totalChunks'' = Some (JNum 3)"
        "map_of (vd_metadata (records ! 0)) ''title'' = Some (JStr ''L'')"
      using each[rule_format, of 0] ids(1) ti by (simp_all del: One_nat_def)
    have e1: "vd_id (records ! 1) = ''long.txt_chunk_1''"
        "vd_values (records ! 1) = Some [700]"
        "map_of (vd_metadata (records ! 1)) ''content'' = Some (JStr ?b)"
        "map_of (vd_metadata (records ! 1)) ''chunkIndex'' = Some (JNum 1)"
        "map_of (vd_metadata (records ! 1)) ''totalChunks'' = Some (JNum 3)"
        "map_of (vd_metadata (records ! 1)) ''title'' = Some (JStr ''L'')"
      using each[rule_format, of 1] ids(2) ti by (simp_all del: One_nat_def)
    have e2: "vd_id (records ! 2) = ''long.txt_chunk_2''"
        "vd_values (records ! 2) = Some [800]"
        "map_of (vd_metadata (records ! 2)) ''content'' = Some (JStr ?c)"
        "map_of (vd_metadata (records ! 2)) ''chunkIndex'' = Some (JNum 2)"
        "map_of (vd_metadata (records ! 2)) ''totalChunks'' = Some (JNum 3)"
        "map_of (vd_metadata (records ! 2)) ''title'' = Some (JStr ''L'')"
      using each[rule_format, of 2] ids(3) ti by (simp_all del: One_nat_def)
    from u have 1: "IndexUpsert records r
        \<in> set (snd (processDocument (sampleExt []) sampleEnv sampleDocumentLong []))" by simp
    have 2: "map vd_id records = [''long.txt_chunk_0'', ''long.txt_chunk_1'', ''long.txt_chunk_2'']"
      by (subst shape) (simp add: e0 e1 e2 del: One_nat_def)
    have 3: "map vd_values records = [Some [600], Some [700], Some [800]]"
      by (subst shape) (simp add: e0 e1 e2 del: One_nat_def)
    have 4: "map (\<lambda>record. map_of (vd_metadata record) ''content'') records =
        [Some (JStr ?a), Some (JStr ?b), Some (JStr ?c)]"
      by (subst shape) (simp add: e0 e1 e2 del: One_nat_def)
    have 5: "map (\<lambda>record. map_of (vd_metadata record) ''chunkIndex'') records =
        [Some (JNum 0), Some (JNum 1), Some (JNum 2)]"
      by (subst shape) (simp add: e0 e1 e2 del: One_nat_def)
    have 6: "map (\<lambda>record. map_of (vd_metadata record) ''totalChunks'') records =
        [Some (JNum 3), Some (JNum 3), Some (JNum 3)]"
      by (subst shape) (simp add: e0 e1 e2 del: One_nat_def)
    have 7: "map (\<lambda>record. map_of (vd_metadata record) ''title'') records =
        [Some (JStr ''L''), Some (JStr ''L''), Some (JStr ''L'')]"
      by (subst shape) (simp add: e0 e1 e2 del: One_nat_def)
    from 1 2 3 4 5 6 7 show ?thesis by (intro exI[of _ records] exI[of _ r] conjI)
  qed
  with h1[symmetric] m show ?thesis by (intro conjI)
qed

section \<open>Properties of the query handler\<close>

lemma newTimer_eq: "newTimer x h = (clock x h, h @ [Now (clock x h)])"
  by (simp add: newTimer_def dateNow_def)

lemma elapsed_eq: "elapsed x t0 h = (clock x h - t0, h @ [Now (clock x h)])"
  by (simp add: elapsed_def dateNow_def)

lemma generateEmbedding_history:
  "generateEmbedding x e q h = (r, h') \<Longrightarrow>
   \<exists>evs. h' = h @ evs \<and> (\<forall>ev\<in>set evs. \<not> isIndexQuery ev \<and> \<not> isChatCompletion ev)"
  by (auto simp: generateEmbedding_def Let_def split: sum.splits)

lemma vectorSearch_cases:
  assumes "vectorSearch x e v topK h = (r, h')"
  shows "(\<exists>err. r = Inl err \<and> h' = h) \<or>
         (\<exists>err s. r = Inl err \<and> h' = h @ [IndexQuery v (js_or topK (topKResults (getRAGConfig e))) (Inl s)]) \<or>
         (\<exists>ms. r = Inr (resultsOf ms) \<and>
            h' = h @ [IndexQuery v (js_or topK (topKResults (getRAGConfig e))) (Inr ms)])"
  using assms
  by (auto simp: vectorSearch_def resultsOf_def Let_def split: sum.splits)

lemma generateRAGResponse_history:
  "generateRAGResponse x e q ctx h = (r, h') \<Longrightarrow>
   \<exists>evs. h' = h @ evs \<and> (\<forall>ev\<in>set evs. \<not> isIndexQuery ev)"
  by (auto simp: generateRAGResponse_def Let_def split: sum.splits)

lemma answerQuery_run:
  assumes run: "answerQuery x e q mr inc tt h = (res, h')"
  shows "\<exists>evs. h' = h @ evs \<and> queryRun e mr inc res evs"
proof -
  let ?t1 = "clock x h" and ?h1 = "h @ [Now (clock x h)]"
  obtain r2 h2 where ge: "generateEmbedding x e q ?h1 = (r2, h2)" by force
  from generateEmbedding_history[OF ge] obtain evs2 where
    h2: "h2 = ?h1 @ evs2" and evs2: "\<forall>ev\<in>set evs2. \<not> isIndexQuery ev \<and> \<not> isChatCompletion ev" by blast
  have noq2: "\<And>v k r. IndexQuery v k r \<notin> set evs2" using evs2 by force
  show ?thesis
  proof (cases r2)
    case (Inl err)
    with run ge have "res = Inl err" "h' = h2"
      by (simp_all add: answerQuery_def newTimer_eq Let_def)
    then show ?thesis using h2 noq2
      by (intro exI[of _ "Now ?t1 # evs2"]) (auto simp: queryRun_def)
  next
    case (Inr er)
    let ?h3 = "h2 @ [Now (clock x h2)]"
    let ?ts = "clock x ?h3" and ?h4 = "?h3 @ [Now (clock x ?h3)]"
    let ?K = "js_or (js_or mr (topKResults (getRAGConfig e))) (topKResults (getRAGConfig e))"
    obtain r5 h5 where vs: "vectorSearch x e (er_embedding er) (js_or mr (topKResults (getRAGConfig e))) ?h4 = (r5, h5)"
      by force
    have K: "?K = topKOf e mr" by (simp add: js_or_def topKOf_def)
    from vectorSearch_cases[OF vs]
    consider (a) err where "r5 = Inl err" "h5 = ?h4"
      | (b) err s where "r5 = Inl err" "h5 = ?h4 @ [IndexQuery (er_embedding er) ?K (Inl s)]"
      | (c) ms where "r5 = Inr (resultsOf ms)" "h5 = ?h4 @ [IndexQuery (er_embedding er) ?K (Inr ms)]"
      by blast
    then show ?thesis
    proof cases
      case a
      with run ge Inr vs have "res = Inl err" "h' = ?h4"
        by (auto simp: answerQuery_def newTimer_eq elapsed_eq Let_def)
      then show ?thesis using h2 noq2
        by (intro exI[of _ "Now ?t1 # evs2 @ [Now (clock x h2), Now (clock x ?h3)]"])
           (auto simp: queryRun_def)
    next
      case b
      with run ge Inr vs have "res = Inl err" "h' = ?h4 @ [IndexQuery (er_embedding er) ?K (Inl s)]"
        by (auto simp: answerQuery_def newTimer_eq elapsed_eq Let_def)
      then show ?thesis using h2 noq2 K
        by (intro exI[of _ "Now ?t1 # evs2 @ [Now (clock x h2), Now (clock x ?h3), IndexQuery (er_embedding er) ?K (Inl s)]"])
           (auto simp: queryRun_def)
    next
      case c
      let ?h6 = "h5 @ [Now (clock x h5)]"
      show ?thesis
      proof (cases "resultsOf ms = []")
        case True
        with run ge Inr vs c have res: "\<exists>resp b. res = Inr resp \<and> status resp = 200 \<and> body resp = QueryBody b \<and>
            answer b = noInformationAnswer \<and> sources b = [] \<and>
            llmGenerationTimeMs (metadata b) = 0 \<and> totalDocumentsSearched (metadata b) = 0"
          and h': "h' = ?h6 @ [Now (clock x ?h6)]"
          by (auto simp: answerQuery_def newTimer_eq elapsed_eq Let_def)
        let ?evs = "Now ?t1 # evs2 @ [Now (clock x h2), Now (clock x ?h3), IndexQuery (er_embedding er) ?K (Inr ms), Now (clock x h5), Now (clock x ?h6)]"
        have "h' = h @ ?evs" using h' c h2 by simp
        moreover have "queryRun e mr inc res ?evs"
          using res True evs2 noq2 K by (auto simp: queryRun_def)
        ultimately show ?thesis by blast
      next
        case False
        let ?h7 = "?h6 @ [Now (clock x ?h6)]"
        obtain r8 h8 where gr: "generateRAGResponse x e q (map extractContentFromSearchResult (resultsOf ms)) ?h7 = (r8, h8)"
          by force
        from generateRAGResponse_history[OF gr] obtain evs8 where
          h8: "h8 = ?h7 @ evs8" and evs8: "\<forall>ev\<in>set evs8. \<not> isIndexQuery ev" by blast
        have noq8: "\<And>v k r. IndexQuery v k r \<notin> set evs8" using evs8 by force
        show ?thesis
        proof (cases r8)
          case (Inl err)
          with run ge \<open>r2 = Inr er\<close> vs c False gr have "res = Inl err" "h' = h8"
            by (auto simp: answerQuery_def newTimer_eq elapsed_eq Let_def)
          moreover
          let ?evs = "Now ?t1 # evs2 @ [Now (clock x h2), Now (clock x ?h3), IndexQuery (er_embedding er) ?K (Inr ms), Now (clock x h5), Now (clock x ?h6)] @ evs8"
          have "h8 = h @ ?evs" using h8 c h2 by simp
          moreover have "queryRun e mr inc (Inl err) ?evs"
            using False noq2 noq8 K by (auto simp: queryRun_def)
          ultimately show ?thesis by blast
        next
          case (Inr generated)
          let ?h9 = "h8 @ [Now (clock x h8)]"
          let ?h10 = "?h9 @ [Now (clock x ?h9)]"
          let ?h11 = "?h10 @ [Now (clock x ?h10)]"
          let ?h12 = "?h11 @ [Now (clock x ?h11)]"
          from run ge \<open>r2 = Inr er\<close> vs c False gr Inr
          have res: "\<exists>resp b. res = Inr resp \<and> status resp = 200 \<and> body resp = QueryBody b \<and>
               sources b = map (toSource inc) (resultsOf ms)"
            and h': "h' = ?h12"
            by (auto simp: answerQuery_def newTimer_eq elapsed_eq Let_def)
          let ?evs = "Now ?t1 # evs2 @ [Now (clock x h2), Now (clock x ?h3), IndexQuery (er_embedding er) ?K (Inr ms), Now (clock x h5), Now (clock x ?h6)] @ evs8 @ [Now (clock x h8), Now (clock x ?h9), Now (clock x ?h10), Now (clock x ?h11)]"
          have "h' = h @ ?evs" using h' h8 c h2 by simp
          moreover have "queryRun e mr inc res ?evs"
            using res False noq2 noq8 K by (auto simp: queryRun_def)
          ultimately show ?thesis by blast
        qed
      qed
    qed
  qed
qed

lemma createErrorResponse_eq:
  "createErrorResponse x err msg code h =
     (\<lparr> status = code,
        body = ErrorBody \<lparr> err_error = err, err_message = msg, err_statusCode = code,
                           err_timestamp = clock x h \<rparr>,
        headers = [] \<rparr>, h @ [Now (clock x h)])"
  by (simp add: createErrorResponse_def dateNow_def)

lemma handleError_eq:
  "\<exists>r. handleError x err h = (r, h @ [Now (clock x h)]) \<and> (\<exists>b. body r = ErrorBody b)"
  by (cases err) (simp_all add: createErrorResponse_eq)

lemma createErrorResponse_shape:
  "\<exists>r. createErrorResponse x err msg code h = (r, h @ [Now (clock x h)]) \<and>
       (\<exists>b. body r = ErrorBody b)"
  by (simp add: createErrorResponse_eq)

lemma POST_query_try_cases:
  assumes t: "POST_query_try x e req tt h = (res, h1)"
  shows "(\<exists>r b. res = Inr r \<and> body r = ErrorBody b \<and> h1 = h @ [Now (clock x h)])
       \<or> (\<exists>err. res = Inl err \<and> h1 = h)
       \<or> (\<exists>b q. req_json req = JsonBody b \<and>
             answerQuery x e q (valueProp b ''maxResults'')
               (withDefault (valueProp b ''includeMetadata'') (JBool True)) tt h = (res, h1))"
proof (cases "validateAPIKey req e")
  case False
  from createErrorResponse_shape[of x "''Unauthorized''" "''Invalid or missing API key''" 401 h]
  obtain r where "createErrorResponse x ''Unauthorized'' ''Invalid or missing API key'' 401 h
      = (r, h @ [Now (clock x h)])" "\<exists>b. body r = ErrorBody b" by blast
  with t False show ?thesis by (auto simp: POST_query_try_def)
next
  case True
  show ?thesis
  proof (cases "req_json req")
    case InvalidJson
    from createErrorResponse_shape[of x "''BadRequest''" "''Invalid JSON in request body''" 400 h]
    obtain r where "createErrorResponse x ''BadRequest'' ''Invalid JSON in request body'' 400 h
        = (r, h @ [Now (clock x h)])" "\<exists>b. body r = ErrorBody b" by blast
    with t True InvalidJson show ?thesis by (auto simp: POST_query_try_def)
  next
    case (JsonBody b)
    show ?thesis
    proof (cases "b = JNull")
      case True
      with t \<open>validateAPIKey req e\<close> JsonBody show ?thesis by (auto simp: POST_query_try_def)
    next
      case False
      show ?thesis
      proof (cases "validQuery (valueProp b ''query'')")
        case True
        with t \<open>validateAPIKey req e\<close> JsonBody False show ?thesis
          by (auto simp: POST_query_try_def Let_def)
      next
        case nv: False
        from createErrorResponse_shape[of x "''BadRequest''"
            "''Query parameter is required and must be a non-empty string''" 400 h]
        obtain r where "createErrorResponse x ''BadRequest''
            ''Query parameter is required and must be a non-empty string'' 400 h
            = (r, h @ [Now (clock x h)])" "\<exists>b. body r = ErrorBody b" by blast
        with t \<open>validateAPIKey req e\<close> JsonBody False nv show ?thesis
          by (auto simp: POST_query_try_def Let_def)
      qed
    qed
  qed
qed

lemma queryRun_postRun_Inr:
  assumes q: "queryRun e mr inc (Inr r) evs"
  shows "postRun e mr inc r (Now t # evs)"
proof -
  from q have A: "\<And>v k r. IndexQuery v k r \<in> set evs \<Longrightarrow> k = topKOf e mr"
    unfolding queryRun_def by blast
  from q have B: "\<And>v k ms. IndexQuery v k (Inr ms) \<in> set evs \<Longrightarrow> resultsOf ms = [] \<Longrightarrow>
         (\<forall>ev\<in>set evs. \<not> isChatCompletion ev) \<and> status r = 200 \<and>
         (\<exists>b. body r = QueryBody b \<and>
            answer b = noInformationAnswer \<and> sources b = [] \<and>
            llmGenerationTimeMs (metadata b) = 0 \<and> totalDocumentsSearched (metadata b) = 0)"
    unfolding queryRun_def by (simp, blast)
  from q have C: "\<exists>b v k ms. body r = QueryBody b \<and> IndexQuery v k (Inr ms) \<in> set evs \<and>
            sources b = map (toSource inc) (resultsOf ms)"
    unfolding queryRun_def by simp
  show ?thesis
    unfolding postRun_def
  proof (intro conjI allI impI)
    fix v k r assume "IndexQuery v k r \<in> set (Now t # evs)"
    then show "k = topKOf e mr" using A by simp
  next
    fix v k ms
    assume "IndexQuery v k (Inr ms) \<in> set (Now t # evs) \<and> resultsOf ms = []"
    then have "IndexQuery v k (Inr ms) \<in> set evs" "resultsOf ms = []" by simp_all
    from B[OF this] show "\<forall>ev\<in>set (Now t # evs). \<not> isChatCompletion ev" "status r = 200"
      "\<exists>b. body r = QueryBody b \<and>
            answer b = noInformationAnswer \<and> sources b = [] \<and>
            llmGenerationTimeMs (metadata b) = 0 \<and> totalDocumentsSearched (metadata b) = 0"
      by simp_all
  next
    fix b assume "body r = QueryBody b"
    with C show "\<exists>v k ms. IndexQuery v k (Inr ms) \<in> set (Now t # evs) \<and>
            sources b = map (toSource inc) (resultsOf ms)" by auto
  qed
qed

lemma queryRun_postRun_Inl:
  assumes q: "queryRun e mr inc (Inl err) evs" and b: "body r = ErrorBody b"
  shows "postRun e mr inc r (Now t # evs @ [Now t'])"
proof -
  from q have A: "\<And>v k r. IndexQuery v k r \<in> set evs \<Longrightarrow> k = topKOf e mr"
    unfolding queryRun_def by blast
  from q have B: "\<And>v k ms. IndexQuery v k (Inr ms) \<in> set evs \<Longrightarrow> resultsOf ms \<noteq> []"
    unfolding queryRun_def by auto
  show ?thesis
    unfolding postRun_def
  proof (intro conjI allI impI)
    fix v k r assume "IndexQuery v k r \<in> set (Now t # evs @ [Now t'])"
    then show "k = topKOf e mr" using A by simp
  next
    fix v k ms
    assume "IndexQuery v k (Inr ms) \<in> set (Now t # evs @ [Now t']) \<and> resultsOf ms = []"
    then have "IndexQuery v k (Inr ms) \<in> set evs" "resultsOf ms = []" by simp_all
    with B have False by blast
    then show "\<forall>ev\<in>set (Now t # evs @ [Now t']). \<not> isChatCompletion ev" "status r = 200"
      "\<exists>b. body r = QueryBody b \<and>
            answer b = noInformationAnswer \<and> sources b = [] \<and>
            llmGenerationTimeMs (metadata b) = 0 \<and> totalDocumentsSearched (metadata b) = 0"
      by simp_all
  next
    fix b' assume "body r = QueryBody b'"
    with b show "\<exists>v k ms. IndexQuery v k (Inr ms) \<in> set (Now t # evs @ [Now t']) \<and>
            sources b' = map (toSource inc) (resultsOf ms)" by simp
  qed
qed

lemma rejected_postRun:
  assumes "\<forall>ev\<in>set evs. \<not> isIndexQuery ev" and "body r = ErrorBody b"
  shows "postRun e mr inc r evs"
proof -
  from assms(1) have "\<And>v k r. IndexQuery v k r \<notin> set evs" by force
  with assms(2) show ?thesis unfolding postRun_def by simp
qed

lemma POST_query_run:
  assumes run: "POST_query x e req h = (resp, h')"
  shows "\<exists>evs. h' = h @ evs \<and> postRun e (maxResultsOf req) (includeMetadataOf req) resp evs"
proof -
  let ?h0 = "h @ [Now (clock x h)]"
  obtain res h1 where t: "POST_query_try x e req (clock x h) ?h0 = (res, h1)" by force
  have rejected: ?thesis if "h' = ?h0 @ [Now (clock x ?h0)]" "body resp = ErrorBody b" for b
  proof -
    have "postRun e (maxResultsOf req) (includeMetadataOf req) resp [Now (clock x h), Now (clock x ?h0)]"
      using that(2) by (intro rejected_postRun[where b=b]) simp_all
    with that(1) show ?thesis by simp
  qed
  from POST_query_try_cases[OF t]
  consider (reject) r b where "res = Inr r" "body r = ErrorBody b" "h1 = ?h0 @ [Now (clock x ?h0)]"
    | (null) err where "res = Inl err" "h1 = ?h0"
    | (answer) b q where "req_json req = JsonBody b"
        "answerQuery x e q (valueProp b ''maxResults'')
           (withDefault (valueProp b ''includeMetadata'') (JBool True)) (clock x h) ?h0 = (res, h1)"
    by blast
  then show ?thesis
  proof cases
    case reject
    with run t have "resp = r" "h' = ?h0 @ [Now (clock x ?h0)]"
      by (simp_all add: POST_query_def newTimer_eq)
    with reject(2) have "h' = ?h0 @ [Now (clock x ?h0)]" "body resp = ErrorBody b" by simp_all
    then show ?thesis by (rule rejected)
  next
    case null
    from handleError_eq[of x err h1] obtain r where
      he: "handleError x err h1 = (r, h1 @ [Now (clock x h1)])" "\<exists>b. body r = ErrorBody b" by blast
    with run t null have "resp = r" "h' = ?h0 @ [Now (clock x ?h0)]"
      by (simp_all add: POST_query_def newTimer_eq)
    with he(2) obtain b where "h' = ?h0 @ [Now (clock x ?h0)]" "body resp = ErrorBody b" by auto
    then show ?thesis by (rule rejected)
  next
    case answer
    have mr: "maxResultsOf req = valueProp b ''maxResults''"
      and inc: "includeMetadataOf req = withDefault (valueProp b ''includeMetadata'') (JBool True)"
      using answer(1) by (simp_all add: maxResultsOf_def includeMetadataOf_def)
    from answerQuery_run[OF answer(2)] obtain evs where
      h1: "h1 = ?h0 @ evs" and qr: "queryRun e (maxResultsOf req) (includeMetadataOf req) res evs"
      unfolding mr inc by blast
    show ?thesis
    proof (cases res)
      case (Inr r)
      with run t have "resp = r" "h' = h1" by (simp_all add: POST_query_def newTimer_eq)
      with h1 queryRun_postRun_Inr[OF qr[unfolded Inr], of "clock x h"] show ?thesis by simp
    next
      case (Inl err)
      from handleError_eq[of x err h1] obtain r where
        he: "handleError x err h1 = (r, h1 @ [Now (clock x h1)])" "\<exists>b. body r = ErrorBody b" by blast
      with run t Inl have "resp = r" "h' = h1 @ [Now (clock x h1)]"
        by (simp_all add: POST_query_def newTimer_eq)
      moreover from he(2) obtain b where "body r = ErrorBody b" by blast
      note queryRun_postRun_Inl[OF qr[unfolded Inl] this, of "clock x h" "clock x h1"]
      ultimately show ?thesis using h1 by simp
    qed
  qed
qed

lemma toSource_metadata_false: "\<not> truthy inc \<Longrightarrow> src_metadata (toSource inc r) = []"
  by (simp add: toSource_def)

lemma toSource_metadata_true:
  assumes "truthy inc"
  shows "map fst (src_metadata (toSource inc r)) = recognizedKeys"
    and "\<forall>key\<in>set recognizedKeys.
           getProp (src_metadata (toSource inc r)) key = stringOrUndefined (getProp (sr_metadata r) key)"
  using assms by (simp_all add: toSource_def recognizedKeys_def getProp_def)

lemmas eval_defs =
  POST_query_def POST_query_try_def answerQuery_def validateAPIKey_def validQuery_def
  withDefault_def getProp_def trim_def isSpace_def newTimer_def elapsed_def dateNow_def
  generateEmbedding_def vectorSearch_def generateRAGResponse_def getRAGConfig_def
  getOpenAIClient_def getPineconeIndex_def getPineconeClient_def env_or_def env_unset_def
  parseInt10_def isDigit_def digitVal_def digitsValue_def toDouble_def js_or_def
  matchToResult_def toSource_def
  extractContentFromSearchResult_def stringOrUndefined_def sampleEnv_def sampleExt_def
  sampleRequest_def sampleMatches_def resultsOf_def Let_def

lemma sample_zero_run:
  "POST_query (sampleExt []) sampleEnv (sampleRequest []) [] =
     (\<lparr> status = 200,
        body = QueryBody
          \<lparr> answer = noInformationAnswer, sources = [],
            metadata = \<lparr> queryProcessingTimeMs = 70, vectorSearchTimeMs = 20,
                         llmGenerationTimeMs = 0, totalDocumentsSearched = 0,
                         model = ''gpt-4-turbo-preview'' \<rparr> \<rparr>,
        headers = [] \<rparr>,
      [Now 1000, Now 1010, EmbeddingsCreate ''text-embedding-3-small'' ''what is alpha?'' (Inr ([1, 0], 3)),
       Now 1030, Now 1040, IndexQuery [1, 0] (JNum 5) (Inr (Some [])), Now 1060, Now 1070])"
  by (simp add: eval_defs)

text \<open>
  Claim C4. In a run of the handler whose vector search returns no result, the response
  has status 200 and carries the fixed answer, no source, a generation time of 0 and a
  count of 0 documents searched; and the run makes no call to the chat completion
  service.
\<close>

theorem zero_results_short_circuit:
  assumes "POST_query x e req h = (resp, h')"
    and "IndexQuery v k (Inr ms) \<in> set (drop (length h) h')"
    and "ms = None \<or> ms = Some []"
  shows "status resp = 200 \<and>
         (\<exists>b. body resp = QueryBody b \<and> answer b = noInformationAnswer \<and> sources b = [] \<and>
              llmGenerationTimeMs (metadata b) = 0 \<and> totalDocumentsSearched (metadata b) = 0) \<and>
         (\<forall>ev\<in>set (drop (length h) h'). \<not> isChatCompletion ev)"
proof -
  from POST_query_run[OF assms(1)] obtain evs where
    h': "h' = h @ evs" and run: "postRun e (maxResultsOf req) (includeMetadataOf req) resp evs"
    by blast
  from h' have d: "drop (length h) h' = evs" by simp
  from assms(3) have z: "resultsOf ms = []" by (auto simp: resultsOf_def)
  from assms(2) have "IndexQuery v k (Inr ms) \<in> set evs" unfolding d .
  with run z have "(\<forall>ev\<in>set evs. \<not> isChatCompletion ev) \<and> status resp = 200 \<and>
         (\<exists>b. body resp = QueryBody b \<and>
            answer b = noInformationAnswer \<and> sources b = [] \<and>
            llmGenerationTimeMs (metadata b) = 0 \<and> totalDocumentsSearched (metadata b) = 0)"
    unfolding postRun_def by blast
  then show ?thesis unfolding d by blast
qed

theorem zero_results_short_circuit_witness:
  "IndexQuery [1, 0] (JNum 5) (Inr (Some []))
     \<in> set (snd (POST_query (sampleExt []) sampleEnv (sampleRequest []) [])) \<and>
   status (fst (POST_query (sampleExt []) sampleEnv (sampleRequest []) [])) = 200 \<and>
   (\<exists>b. body (fst (POST_query (sampleExt []) sampleEnv (sampleRequest []) [])) = QueryBody b \<and>
      answer b = noInformationAnswer \<and> sources b = [] \<and>
      llmGenerationTimeMs (metadata b) = 0 \<and> totalDocumentsSearched (metadata b) = 0) \<and>
   filter isChatCompletion (snd (POST_query (sampleExt []) sampleEnv (sampleRequest []) [])) = []"
proof -
  let ?run = "POST_query (sampleExt []) sampleEnv (sampleRequest []) []"
  have run: "?run = (fst ?run, snd ?run)" by simp
  have q: "IndexQuery [1, 0] (JNum 5) (Inr (Some [])) \<in> set (drop (length []) (snd ?run))"
    by (simp add: sample_zero_run)
  have z: "Some [] = None \<or> Some [] = Some ([] :: pinecone_match list)" by simp
  from zero_results_short_circuit[OF run q z] q show ?thesis
    by (simp add: filter_empty_conv)
qed

lemma stringOrUndefined_defined: "stringOrUndefined v \<noteq> JUndefined \<longleftrightarrow> typeof_string v"
  by (cases v) (simp_all add: stringOrUndefined_def)

lemma stringOrUndefined_string: "typeof_string v \<Longrightarrow> stringOrUndefined v = v"
  by (simp add: stringOrUndefined_def)

lemma toSource_json:
  assumes "truthy inc"
  shows "jsonProps (src_metadata (toSource inc r)) =
           filter (\<lambda>(key, v). typeof_string v)
             (map (\<lambda>key. (key, getProp (sr_metadata r) key)) recognizedKeys)"
  using assms
  by (simp add: toSource_def jsonProps_def recognizedKeys_def stringOrUndefined_defined
      stringOrUndefined_string)

lemma toSource_fields:
  "src_id (toSource inc r) = sr_id r"
  "src_content (toSource inc r) = extractContentFromSearchResult r"
  "src_score (toSource inc r) = sr_score r"
  by (simp_all add: toSource_def)

text \<open>
  Claim C7. The sources of a query response are, in order, the results of the run's
  vector search: the \<open>i\<close>-th source has the id, the extracted content and the score of the
  \<open>i\<close>-th result. With \<^verbatim>\<open>includeMetadata\<close> false its metadata is the empty object. With
  \<^verbatim>\<open>includeMetadata\<close> true (or omitted) the keys of its metadata object are title, url,
  createdAt, updatedAt and documentType and no other, whatever keys the result has, each
  holding the string the result has under that key, or \<^verbatim>\<open>undefined\<close>; so the properties
  of its JSON rendering are the recognized keys under which the result has a string.
\<close>

theorem metadata_filtering:
  assumes "POST_query x e req h = (resp, h')"
    and "req_json req = JsonBody (JObj kvs)"
    and "body resp = QueryBody b"
  shows "\<exists>v k ms.
           IndexQuery v k (Inr ms) \<in> set (drop (length h) h') \<and>
           length (sources b) = length (resultsOf ms) \<and>
           (\<forall>i<length (resultsOf ms).
              src_id (sources b ! i) = sr_id (resultsOf ms ! i) \<and>
              src_content (sources b ! i) = extractContentFromSearchResult (resultsOf ms ! i) \<and>
              src_score (sources b ! i) = sr_score (resultsOf ms ! i) \<and>
              (getProp kvs ''includeMetadata'' = JBool False \<longrightarrow>
                 src_metadata (sources b ! i) = []) \<and>
              (getProp kvs ''includeMetadata'' = JBool True \<or>
               getProp kvs ''includeMetadata'' = JUndefined \<longrightarrow>
                 map fst (src_metadata (sources b ! i)) = recognizedKeys \<and>
                 (\<forall>key\<in>set recognizedKeys.
                    getProp (src_metadata (sources b ! i)) key =
                      stringOrUndefined (getProp (sr_metadata (resultsOf ms ! i)) key)) \<and>
                 jsonProps (src_metadata (sources b ! i)) =
                   filter (\<lambda>(key, v). typeof_string v)
                     (map (\<lambda>key. (key, getProp (sr_metadata (resultsOf ms ! i)) key))
                        recognizedKeys)))"
proof -
  let ?inc = "withDefault (getProp kvs ''includeMetadata'') (JBool True)"
  from POST_query_run[OF assms(1)] obtain evs where
    h': "h' = h @ evs" and run: "postRun e (maxResultsOf req) (includeMetadataOf req) resp evs"
    by blast
  from h' have d: "drop (length h) h' = evs" by simp
  have inc: "includeMetadataOf req = ?inc" using assms(2) by (simp add: includeMetadataOf_def)
  from run assms(3) obtain v k ms where
    q: "IndexQuery v k (Inr ms) \<in> set evs" and src: "sources b = map (toSource ?inc) (resultsOf ms)"
    unfolding postRun_def inc by blast
  have len: "length (sources b) = length (resultsOf ms)" by (simp add: src)
  have each: "src_id (sources b ! i) = sr_id (resultsOf ms ! i) \<and>
              src_content (sources b ! i) = extractContentFromSearchResult (resultsOf ms ! i) \<and>
              src_score (sources b ! i) = sr_score (resultsOf ms ! i) \<and>
              (getProp kvs ''includeMetadata'' = JBool False \<longrightarrow>
                 src_metadata (sources b ! i) = []) \<and>
              (getProp kvs ''includeMetadata'' = JBool True \<or>
               getProp kvs ''includeMetadata'' = JUndefined \<longrightarrow>
                 map fst (src_metadata (sources b ! i)) = recognizedKeys \<and>
                 (\<forall>key\<in>set recognizedKeys.
                    getProp (src_metadata (sources b ! i)) key =
                      stringOrUndefined (getProp (sr_metadata (resultsOf ms ! i)) key)) \<and>
                 jsonProps (src_metadata (sources b ! i)) =
                   filter (\<lambda>(key, v). typeof_string v)
                     (map (\<lambda>key. (key, getProp (sr_metadata (resultsOf ms ! i)) key))
                        recognizedKeys))"
    if i: "i < length (resultsOf ms)" for i
  proof -
    let ?r = "resultsOf ms ! i"
    have s: "sources b ! i = toSource ?inc ?r" using i by (simp add: src)
    have f: "getProp kvs ''includeMetadata'' = JBool False \<longrightarrow> src_metadata (sources b ! i) = []"
      unfolding s by (auto simp: withDefault_def intro: toSource_metadata_false)
    have t: "getProp kvs ''includeMetadata'' = JBool True \<or>
               getProp kvs ''includeMetadata'' = JUndefined \<longrightarrow>
                 map fst (src_metadata (sources b ! i)) = recognizedKeys \<and>
                 (\<forall>key\<in>set recognizedKeys.
                    getProp (src_metadata (sources b ! i)) key =
                      stringOrUndefined (getProp (sr_metadata ?r) key)) \<and>
                 jsonProps (src_metadata (sources b ! i)) =
                   filter (\<lambda>(key, v). typeof_string v)
                     (map (\<lambda>key. (key, getProp (sr_metadata ?r) key)) recognizedKeys)"
    proof
      assume "getProp kvs ''includeMetadata'' = JBool True \<or>
               getProp kvs ''includeMetadata'' = JUndefined"
      then have tr: "truthy ?inc" by (auto simp: withDefault_def)
      from toSource_metadata_true[OF tr, of ?r] toSource_json[OF tr, of ?r]
      show "map fst (src_metadata (sources b ! i)) = recognizedKeys \<and>
                 (\<forall>key\<in>set recognizedKeys.
                    getProp (src_metadata (sources b ! i)) key =
                      stringOrUndefined (getProp (sr_metadata ?r) key)) \<and>
                 jsonProps (src_metadata (sources b ! i)) =
                   filter (\<lambda>(key, v). typeof_string v)
                     (map (\<lambda>key. (key, getProp (sr_metadata ?r) key)) recognizedKeys)"
        unfolding s by (intro conjI)
    qed
    from f t show ?thesis unfolding s toSource_fields by (intro conjI refl) (simp_all add: s)
  qed
  from q len each show ?thesis unfolding d by blast
qed

lemma sample_run_without_metadata:
  "\<exists>b. body (fst (POST_query (sampleExt sampleMatches) sampleEnv
                    (sampleRequest [(''includeMetadata'', JBool False)]) [])) = QueryBody b \<and>
       sources b =
         [\<lparr> src_id = ''doc1_chunk_0'', src_content = ''alpha beta'', src_score = 9 / 10,
            src_metadata = [] \<rparr>,
          \<lparr> src_id = ''doc2_chunk_3'', src_content = [], src_score = 0, src_metadata = [] \<rparr>]"
  by (simp add: eval_defs)

lemma sample_run_with_metadata:
  "\<exists>b. body (fst (POST_query (sampleExt sampleMatches) sampleEnv
                    (sampleRequest [(''includeMetadata'', JBool True)]) [])) = QueryBody b \<and>
       sources b =
         [\<lparr> src_id = ''doc1_chunk_0'', src_content = ''alpha beta'', src_score = 9 / 10,
            src_metadata =
              [(''title'', JStr ''Guide''), (''url'', JUndefined), (''createdAt'', JUndefined),
               (''updatedAt'', JUndefined), (''documentType'', JUndefined)] \<rparr>,
          \<lparr> src_id = ''doc2_chunk_3'', src_content = [], src_score = 0,
            src_metadata =
              [(''title'', JUndefined), (''url'', JUndefined), (''createdAt'', JUndefined),
               (''updatedAt'', JUndefined), (''documentType'', JUndefined)] \<rparr>]"
  by (simp add: eval_defs)

lemma sample_run_queries:
  "filter isIndexQuery (snd (POST_query (sampleExt sampleMatches) sampleEnv
                               (sampleRequest [(''includeMetadata'', JBool False)]) []))
     = [IndexQuery [1, 0] (JNum 5) (Inr (Some sampleMatches))]"
  "filter isIndexQuery (snd (POST_query (sampleExt sampleMatches) sampleEnv
                               (sampleRequest [(''includeMetadata'', JBool True)]) []))
     = [IndexQuery [1, 0] (JNum 5) (Inr (Some sampleMatches))]"
  by (simp_all add: eval_defs)

lemma sample_results:
  "resultsOf (Some sampleMatches) =
     [\<lparr> sr_id = ''doc1_chunk_0'', sr_score = 9 / 10,
        sr_metadata = [(''title'', JStr ''Guide''), (''content'', JStr ''alpha beta''),
                       (''chunkIndex'', JNum 0), (''url'', JNum 7)] \<rparr>,
      \<lparr> sr_id = ''doc2_chunk_3'', sr_score = 0, sr_metadata = [] \<rparr>]"
  by (simp add: resultsOf_def sampleMatches_def matchToResult_def)

lemma map2: "length xs = 2 \<Longrightarrow> map f xs = [f (xs ! 0), f (xs ! 1)]"
  by (cases xs; cases "tl xs") auto

theorem metadata_filtering_witness:
  "(\<exists>b. body (fst (POST_query (sampleExt sampleMatches) sampleEnv
                     (sampleRequest [(''includeMetadata'', JBool False)]) [])) = QueryBody b \<and>
        map src_id (sources b) = [''doc1_chunk_0'', ''doc2_chunk_3''] \<and>
        map src_content (sources b) = [''alpha beta'', []] \<and>
        map src_score (sources b) = [9 / 10, 0] \<and>
        map src_metadata (sources b) = [[], []]) \<and>
   (\<exists>b. body (fst (POST_query (sampleExt sampleMatches) sampleEnv
                     (sampleRequest [(''includeMetadata'', JBool True)]) [])) = QueryBody b \<and>
        map src_id (sources b) = [''doc1_chunk_0'', ''doc2_chunk_3''] \<and>
        map src_content (sources b) = [''alpha beta'', []] \<and>
        map src_score (sources b) = [9 / 10, 0] \<and>
        map (\<lambda>s. map fst (src_metadata s)) (sources b) = [recognizedKeys, recognizedKeys] \<and>
        map (\<lambda>s. getProp (src_metadata s) ''title'') (sources b) = [JStr ''Guide'', JUndefined] \<and>
        map (\<lambda>s. getProp (src_metadata s) ''url'') (sources b) = [JUndefined, JUndefined] \<and>
        map (\<lambda>s. jsonProps (src_metadata s)) (sources b) = [[(''title'', JStr ''Guide'')], []])"
proof -
  let ?kF = "[(''query'', JStr ''what is alpha?''), (''includeMetadata'', JBool False)]"
  let ?kT = "[(''query'', JStr ''what is alpha?''), (''includeMetadata'', JBool True)]"
  let ?F = "sampleRequest [(''includeMetadata'', JBool False)]"
  let ?T = "sampleRequest [(''includeMetadata'', JBool True)]"
  let ?runF = "POST_query (sampleExt sampleMatches) sampleEnv ?F []"
  let ?runT = "POST_query (sampleExt sampleMatches) sampleEnv ?T []"
  let ?rs = "resultsOf (Some sampleMatches)"
  have runF: "?runF = (fst ?runF, snd ?runF)" and runT: "?runT = (fst ?runT, snd ?runT)"
    by simp_all
  have jF: "req_json ?F = JsonBody (JObj ?kF)" and jT: "req_json ?T = JsonBody (JObj ?kT)"
    by (simp_all add: sampleRequest_def)
  have gF: "getProp ?kF ''includeMetadata'' = JBool False"
    and gT: "getProp ?kT ''includeMetadata'' = JBool True"
    by (simp_all add: getProp_def)
  have onlyF: "ms = Some sampleMatches"
    if "IndexQuery v k (Inr ms) \<in> set (drop (length []) (snd ?runF))" for v k ms
  proof -
    from that have "IndexQuery v k (Inr ms) \<in> set (filter isIndexQuery (snd ?runF))" by simp
    then show ?thesis unfolding sample_run_queries by simp
  qed
  have onlyT: "ms = Some sampleMatches"
    if "IndexQuery v k (Inr ms) \<in> set (drop (length []) (snd ?runT))" for v k ms
  proof -
    from that have "IndexQuery v k (Inr ms) \<in> set (filter isIndexQuery (snd ?runT))" by simp
    then show ?thesis unfolding sample_run_queries by simp
  qed
  have len: "length ?rs = 2" by (simp add: sample_results)
  have r0: "sr_id (?rs ! 0) = ''doc1_chunk_0''" "extractContentFromSearchResult (?rs ! 0) = ''alpha beta''"
    "sr_score (?rs ! 0) = 9 / 10"
    "stringOrUndefined (getProp (sr_metadata (?rs ! 0)) ''title'') = JStr ''Guide''"
    "stringOrUndefined (getProp (sr_metadata (?rs ! 0)) ''url'') = JUndefined"
    "filter (\<lambda>(key, v). typeof_string v)
       (map (\<lambda>key. (key, getProp (sr_metadata (?rs ! 0)) key)) recognizedKeys)
       = [(''title'', JStr ''Guide'')]"
    by (simp_all add: sample_results extractContentFromSearchResult_def getProp_def
        stringOrUndefined_def recognizedKeys_def)
  have r1: "sr_id (?rs ! 1) = ''doc2_chunk_3''" "extractContentFromSearchResult (?rs ! 1) = []"
    "sr_score (?rs ! 1) = 0"
    "stringOrUndefined (getProp (sr_metadata (?rs ! 1)) ''title'') = JUndefined"
    "stringOrUndefined (getProp (sr_metadata (?rs ! 1)) ''url'') = JUndefined"
    "filter (\<lambda>(key, v). typeof_string v)
       (map (\<lambda>key. (key, getProp (sr_metadata (?rs ! 1)) key)) recognizedKeys) = []"
    by (simp_all add: sample_results extractContentFromSearchResult_def getProp_def
        stringOrUndefined_def recognizedKeys_def del: One_nat_def)
  have keys: "''title'' \<in> set recognizedKeys" "''url'' \<in> set recognizedKeys"
    by (simp_all add: recognizedKeys_def)
  from sample_run_without_metadata obtain bF where
    bF: "body (fst ?runF) = QueryBody bF" by (elim exE conjE)
  from sample_run_with_metadata obtain bT where
    bT: "body (fst ?runT) = QueryBody bT" by (elim exE conjE)
  have F: "map src_id (sources bF) = [''doc1_chunk_0'', ''doc2_chunk_3''] \<and>
        map src_content (sources bF) = [''alpha beta'', []] \<and>
        map src_score (sources bF) = [9 / 10, 0] \<and>
        map src_metadata (sources bF) = [[], []]"
    using metadata_filtering[OF runF jF bF]
  proof (elim exE conjE)
    fix v k ms
    assume q: "IndexQuery v k (Inr ms) \<in> set (drop (length []) (snd ?runF))"
      and l: "length (sources bF) = length (resultsOf ms)"
      and e: "\<forall>i<length (resultsOf ms).
              src_id (sources bF ! i) = sr_id (resultsOf ms ! i) \<and>
              src_content (sources bF ! i) = extractContentFromSearchResult (resultsOf ms ! i) \<and>
              src_score (sources bF ! i) = sr_score (resultsOf ms ! i) \<and>
              (getProp ?kF ''includeMetadata'' = JBool False \<longrightarrow>
                 src_metadata (sources bF ! i) = []) \<and>
              (getProp ?kF ''includeMetadata'' = JBool True \<or>
               getProp ?kF ''includeMetadata'' = JUndefined \<longrightarrow>
                 map fst (src_metadata (sources bF ! i)) = recognizedKeys \<and>
                 (\<forall>key\<in>set recognizedKeys.
                    getProp (src_metadata (sources bF ! i)) key =
                      stringOrUndefined (getProp (sr_metadata (resultsOf ms ! i)) key)) \<and>
                 jsonProps (src_metadata (sources bF ! i)) =
                   filter (\<lambda>(key, v). typeof_string v)
                     (map (\<lambda>key. (key, getProp (sr_metadata (resultsOf ms ! i)) key))
                        recognizedKeys))"
    from onlyF[OF q] have ms: "ms = Some sampleMatches" .
    from l have l2: "length (sources bF) = 2" unfolding ms len .
    note mp = map2[OF l2]
    have i0: "0 < length (resultsOf ms)" and i1: "1 < length (resultsOf ms)"
      unfolding ms len by simp_all
    note e0 = e[rule_format, OF i0, unfolded ms] and e1 = e[rule_format, OF i1, unfolded ms]
    have s0: "src_id (sources bF ! 0) = ''doc1_chunk_0''" "src_content (sources bF ! 0) = ''alpha beta''"
      "src_score (sources bF ! 0) = 9 / 10" "src_metadata (sources bF ! 0) = []"
      using e0 gF by (simp_all only: r0)
    have s1: "src_id (sources bF ! 1) = ''doc2_chunk_3''" "src_content (sources bF ! 1) = []"
      "src_score (sources bF ! 1) = 0" "src_metadata (sources bF ! 1) = []"
      using e1 gF by (simp_all only: r1)
    show ?thesis by (simp only: mp s0 s1 simp_thms)
  qed
  have T: "map src_id (sources bT) = [''doc1_chunk_0'', ''doc2_chunk_3''] \<and>
        map src_content (sources bT) = [''alpha beta'', []] \<and>
        map src_score (sources bT) = [9 / 10, 0] \<and>
        map (\<lambda>s. map fst (src_metadata s)) (sources bT) = [recognizedKeys, recognizedKeys] \<and>
        map (\<lambda>s. getProp (src_metadata s) ''title'') (sources bT) = [JStr ''Guide'', JUndefined] \<and>
        map (\<lambda>s. getProp (src_metadata s) ''url'') (sources bT) = [JUndefined, JUndefined] \<and>
        map (\<lambda>s. jsonProps (src_metadata s)) (sources bT) = [[(''title'', JStr ''Guide'')], []]"
    using metadata_filtering[OF runT jT bT]
  proof (elim exE conjE)
    fix v k ms
    assume q: "IndexQuery v k (Inr ms) \<in> set (drop (length []) (snd ?runT))"
      and l: "length (sources bT) = length (resultsOf ms)"
      and e: "\<forall>i<length (resultsOf ms).
              src_id (sources bT ! i) = sr_id (resultsOf ms ! i) \<and>
              src_content (sources bT ! i) = extractContentFromSearchResult (resultsOf ms ! i) \<and>
              src_score (sources bT ! i) = sr_score (resultsOf ms ! i) \<and>
              (getProp ?kT ''includeMetadata'' = JBool False \<longrightarrow>
                 src_metadata (sources bT ! i) = []) \<and>
              (getProp ?kT ''includeMetadata'' = JBool True \<or>
               getProp ?kT ''includeMetadata'' = JUndefined \<longrightarrow>
                 map fst (src_metadata (sources bT ! i)) = recognizedKeys \<and>
                 (\<forall>key\<in>set recognizedKeys.
                    getProp (src_metadata (sources bT ! i)) key =
                      stringOrUndefined (getProp (sr_metadata (resultsOf ms ! i)) key)) \<and>
                 jsonProps (src_metadata (sources bT ! i)) =
                   filter (\<lambda>(key, v). typeof_string v)
                     (map (\<lambda>key. (key, getProp (sr_metadata (resultsOf ms ! i)) key))
                        recognizedKeys))"
    from onlyT[OF q] have ms: "ms = Some sampleMatches" .
    from l have l2: "length (sources bT) = 2" unfolding ms len .
    note mp = map2[OF l2]
    have i0: "0 < length (resultsOf ms)" and i1: "1 < length (resultsOf ms)"
      unfolding ms len by simp_all
    note e0 = e[rule_format, OF i0, unfolded ms] and e1 = e[rule_format, OF i1, unfolded ms]
    note m0 = e0[THEN conjunct2, THEN conjunct2, THEN conjunct2, THEN conjunct2, rule_format,
        OF disjI1, OF gT]
    note m1 = e1[THEN conjunct2, THEN conjunct2, THEN conjunct2, THEN conjunct2, rule_format,
        OF disjI1, OF gT]
    have s0: "src_id (sources bT ! 0) = ''doc1_chunk_0''" "src_content (sources bT ! 0) = ''alpha beta''"
      "src_score (sources bT ! 0) = 9 / 10"
      using e0 by (simp_all only: r0)
    have s1: "src_id (sources bT ! 1) = ''doc2_chunk_3''" "src_content (sources bT ! 1) = []"
      "src_score (sources bT ! 1) = 0"
      using e1 by (simp_all only: r1)
    have t0: "map fst (src_metadata (sources bT ! 0)) = recognizedKeys"
      "getProp (src_metadata (sources bT ! 0)) ''title'' = JStr ''Guide''"
      "getProp (src_metadata (sources bT ! 0)) ''url'' = JUndefined"
      "jsonProps (src_metadata (sources bT ! 0)) = [(''title'', JStr ''Guide'')]"
      using m0[THEN conjunct1] m0[THEN conjunct2, THEN conjunct1, rule_format, OF keys(1)]
        m0[THEN conjunct2, THEN conjunct1, rule_format, OF keys(2)]
        m0[THEN conjunct2, THEN conjunct2]
      by (simp_all only: r0)
    have t1: "map fst (src_metadata (sources bT ! 1)) = recognizedKeys"
      "getProp (src_metadata (sources bT ! 1)) ''title'' = JUndefined"
      "getProp (src_metadata (sources bT ! 1)) ''url'' = JUndefined"
      "jsonProps (src_metadata (sources bT ! 1)) = []"
      using m1[THEN conjunct1] m1[THEN conjunct2, THEN conjunct1, rule_format, OF keys(1)]
        m1[THEN conjunct2, THEN conjunct1, rule_format, OF keys(2)]
        m1[THEN conjunct2, THEN conjunct2]
      by (simp_all only: r1)
    show ?thesis by (simp only: mp s0 s1 t0 t1 simp_thms)
  qed
  have EF: "\<exists>b. body (fst ?runF) = QueryBody b \<and>
        map src_id (sources b) = [''doc1_chunk_0'', ''doc2_chunk_3''] \<and>
        map src_content (sources b) = [''alpha beta'', []] \<and>
        map src_score (sources b) = [9 / 10, 0] \<and>
        map src_metadata (sources b) = [[], []]"
    by (rule exI[of _ bF], rule conjI[OF bF]) (rule F)
  have ET: "\<exists>b. body (fst ?runT) = QueryBody b \<and>
        map src_id (sources b) = [''doc1_chunk_0'', ''doc2_chunk_3''] \<and>
        map src_content (sources b) = [''alpha beta'', []] \<and>
        map src_score (sources b) = [9 / 10, 0] \<and>
        map (\<lambda>s. map fst (src_metadata s)) (sources b) = [recognizedKeys, recognizedKeys] \<and>
        map (\<lambda>s. getProp (src_metadata s) ''title'') (sources b) = [JStr ''Guide'', JUndefined] \<and>
        map (\<lambda>s. getProp (src_metadata s) ''url'') (sources b) = [JUndefined, JUndefined] \<and>
        map (\<lambda>s. jsonProps (src_metadata s)) (sources b) = [[(''title'', JStr ''Guide'')], []]"
    by (rule exI[of _ bT], rule conjI[OF bT]) (rule T)
  show ?thesis by (rule conjI[OF EF ET])
qed

lemma env_or_showNat: "env_or (Some (showNat c)) d = showNat c"
  using showNat_digits[of c] by (simp add: env_or_def)

text \<open>
  Claim C10. When \<^verbatim>\<open>maxResults\<close> is omitted or is 0, the top-K count of the vector search
  of a run is the configured \<^verbatim>\<open>topKResults\<close>, that is \<^verbatim>\<open>parseInt\<close> of \<^verbatim>\<open>TOP_K_RESULTS\<close>
  or of \<open>5\<close> when that is unset or empty: 5 by default, and \<open>c\<close> when \<^verbatim>\<open>TOP_K_RESULTS\<close> is
  the decimal numeral of a number \<open>c\<close> below \<open>2 ^ 53\<close>. When \<^verbatim>\<open>maxResults\<close> is a number other
  than 0, negative numbers included, the top-K count is \<^verbatim>\<open>maxResults\<close> itself.
\<close>

theorem topK_forwarding:
  assumes "POST_query x e req h = (resp, h')"
    and "req_json req = JsonBody (JObj kvs)"
    and "IndexQuery v k r \<in> set (drop (length h) h')"
  shows "(getProp kvs ''maxResults'' = JUndefined \<or> getProp kvs ''maxResults'' = JNum 0 \<longrightarrow>
            k = topKResults (getRAGConfig e) \<and>
            k = parseInt10 (env_or (TOP_K_RESULTS e) ''5'') \<and>
            (TOP_K_RESULTS e = None \<or> TOP_K_RESULTS e = Some [] \<longrightarrow> k = JNum 5) \<and>
            (\<forall>c<2 ^ 53. TOP_K_RESULTS e = Some (showNat c) \<longrightarrow> k = JNum (real c))) \<and>
         (\<forall>n. getProp kvs ''maxResults'' = JNum n \<and> n \<noteq> 0 \<longrightarrow> k = JNum n)"
proof -
  from POST_query_run[OF assms(1)] obtain evs where
    h': "h' = h @ evs" and run: "postRun e (maxResultsOf req) (includeMetadataOf req) resp evs"
    by blast
  from h' have d: "drop (length h) h' = evs" by simp
  have mr: "maxResultsOf req = getProp kvs ''maxResults''"
    using assms(2) by (simp add: maxResultsOf_def)
  from run assms(3) have k: "k = topKOf e (getProp kvs ''maxResults'')"
    unfolding postRun_def d mr by blast
  have cfg: "topKResults (getRAGConfig e) = parseInt10 (env_or (TOP_K_RESULTS e) ''5'')"
    by (simp add: getRAGConfig_def)
  have five: "parseInt10 ''5'' = JNum 5"
    by (simp add: parseInt10_def isSpace_def isDigit_def digitVal_def digitsValue_def
        toDouble_def)
  have dflt: "TOP_K_RESULTS e = None \<or> TOP_K_RESULTS e = Some [] \<longrightarrow>
            topKResults (getRAGConfig e) = JNum 5"
    unfolding cfg using five by (auto simp: env_or_def)
  have conf: "\<forall>c<2 ^ 53. TOP_K_RESULTS e = Some (showNat c) \<longrightarrow>
            topKResults (getRAGConfig e) = JNum (real c)"
    unfolding cfg by (simp add: env_or_showNat parseInt10_showNat)
  have fwd: "\<forall>n. getProp kvs ''maxResults'' = JNum n \<and> n \<noteq> 0 \<longrightarrow> k = JNum n"
    using k by (simp add: topKOf_def)
  have "getProp kvs ''maxResults'' = JUndefined \<or> getProp kvs ''maxResults'' = JNum 0 \<longrightarrow>
          k = topKResults (getRAGConfig e)"
    using k by (auto simp: topKOf_def)
  with cfg dflt conf fwd show ?thesis by simp
qed

lemmas topK_eval_defs = eval_defs sampleEnvTopK7_def

lemma sample_negative_run:
  "filter isIndexQuery (snd (POST_query (sampleExt []) sampleEnv
                               (sampleRequest [(''maxResults'', JNum (- 3))]) []))
     = [IndexQuery [1, 0] (JNum (- 3)) (Inr (Some []))]"
  by (simp add: eval_defs)

lemma sample_configured_run:
  "filter isIndexQuery (snd (POST_query (sampleExt []) sampleEnvTopK7
                               (sampleRequest [(''maxResults'', JNum 0)]) []))
     = [IndexQuery [1, 0] (JNum 7) (Inr (Some []))]"
  "filter isIndexQuery (snd (POST_query (sampleExt []) sampleEnvTopK7 (sampleRequest []) []))
     = [IndexQuery [1, 0] (JNum 7) (Inr (Some []))]"
  "filter isIndexQuery (snd (POST_query (sampleExt []) sampleEnvTopK7
                               (sampleRequest [(''maxResults'', JNum 3)]) []))
     = [IndexQuery [1, 0] (JNum 3) (Inr (Some []))]"
  by (simp_all add: topK_eval_defs)

theorem topK_forwarding_witness:
  "TOP_K_RESULTS sampleEnv = None \<and> TOP_K_RESULTS sampleEnvTopK7 = Some ''7'' \<and>
   filter isIndexQuery (snd (POST_query (sampleExt []) sampleEnv (sampleRequest []) []))
     = [IndexQuery [1, 0] (JNum 5) (Inr (Some []))] \<and>
   filter isIndexQuery (snd (POST_query (sampleExt []) sampleEnvTopK7 (sampleRequest []) []))
     = [IndexQuery [1, 0] (JNum 7) (Inr (Some []))] \<and>
   filter isIndexQuery (snd (POST_query (sampleExt []) sampleEnvTopK7
                               (sampleRequest [(''maxResults'', JNum 0)]) []))
     = [IndexQuery [1, 0] (JNum 7) (Inr (Some []))] \<and>
   filter isIndexQuery (snd (POST_query (sampleExt []) sampleEnvTopK7
                               (sampleRequest [(''maxResults'', JNum 3)]) []))
     = [IndexQuery [1, 0] (JNum 3) (Inr (Some []))] \<and>
   filter isIndexQuery (snd (POST_query (sampleExt []) sampleEnv
                               (sampleRequest [(''maxResults'', JNum (- 3))]) []))
     = [IndexQuery [1, 0] (JNum (- 3)) (Inr (Some []))] \<and>
   list_all (\<lambda>ev. case ev of IndexQuery v k r \<Rightarrow> k = JNum 5 | _ \<Rightarrow> True)
     (snd (POST_query (sampleExt []) sampleEnv (sampleRequest []) [])) \<and>
   list_all (\<lambda>ev. case ev of IndexQuery v k r \<Rightarrow> k = JNum 7 | _ \<Rightarrow> True)
     (snd (POST_query (sampleExt []) sampleEnvTopK7 (sampleRequest []) [])) \<and>
   list_all (\<lambda>ev. case ev of IndexQuery v k r \<Rightarrow> k = JNum 7 | _ \<Rightarrow> True)
     (snd (POST_query (sampleExt []) sampleEnvTopK7
             (sampleRequest [(''maxResults'', JNum 0)]) [])) \<and>
   list_all (\<lambda>ev. case ev of IndexQuery v k r \<Rightarrow> k = JNum 3 | _ \<Rightarrow> True)
     (snd (POST_query (sampleExt []) sampleEnvTopK7
             (sampleRequest [(''maxResults'', JNum 3)]) [])) \<and>
   list_all (\<lambda>ev. case ev of IndexQuery v k r \<Rightarrow> k = JNum (- 3) | _ \<Rightarrow> True)
     (snd (POST_query (sampleExt []) sampleEnv
             (sampleRequest [(''maxResults'', JNum (- 3))]) []))"
proof -
  let ?kU = "[(''query'', JStr ''what is alpha?'')]"
  let ?k0 = "[(''query'', JStr ''what is alpha?''), (''maxResults'', JNum 0)]"
  let ?k3 = "[(''query'', JStr ''what is alpha?''), (''maxResults'', JNum 3)]"
  let ?kN = "[(''query'', JStr ''what is alpha?''), (''maxResults'', JNum (- 3))]"
  let ?U = "sampleRequest []"
  let ?Z = "sampleRequest [(''maxResults'', JNum 0)]"
  let ?P = "sampleRequest [(''maxResults'', JNum 3)]"
  let ?N = "sampleRequest [(''maxResults'', JNum (- 3))]"
  let ?runD = "POST_query (sampleExt []) sampleEnv ?U []"
  let ?runU = "POST_query (sampleExt []) sampleEnvTopK7 ?U []"
  let ?runZ = "POST_query (sampleExt []) sampleEnvTopK7 ?Z []"
  let ?runP = "POST_query (sampleExt []) sampleEnvTopK7 ?P []"
  let ?runN = "POST_query (sampleExt []) sampleEnv ?N []"
  have runD: "?runD = (fst ?runD, snd ?runD)" and runU: "?runU = (fst ?runU, snd ?runU)"
    and runZ: "?runZ = (fst ?runZ, snd ?runZ)" and runP: "?runP = (fst ?runP, snd ?runP)"
    and runN: "?runN = (fst ?runN, snd ?runN)"
    by simp_all
  have jU: "req_json ?U = JsonBody (JObj ?kU)" and jZ: "req_json ?Z = JsonBody (JObj ?k0)"
    and jP: "req_json ?P = JsonBody (JObj ?k3)" and jN: "req_json ?N = JsonBody (JObj ?kN)"
    by (simp_all add: sampleRequest_def)
  have gU: "getProp ?kU ''maxResults'' = JUndefined"
    and gZ: "getProp ?k0 ''maxResults'' = JNum 0"
    and gP: "getProp ?k3 ''maxResults'' = JNum 3 \<and> (3 :: real) \<noteq> 0"
    and gN: "getProp ?kN ''maxResults'' = JNum (- 3) \<and> (- 3 :: real) \<noteq> 0"
    by (simp_all add: getProp_def)
  have unset: "TOP_K_RESULTS sampleEnv = None" by (simp add: sampleEnv_def)
  have seven: "TOP_K_RESULTS sampleEnvTopK7 = Some ''7''"
    by (simp add: sampleEnvTopK7_def)
  have s7: "TOP_K_RESULTS sampleEnvTopK7 = Some (showNat 7)"
    by (simp add: sampleEnvTopK7_def showNat.simps)
  have c7: "(7 :: nat) < 2 ^ 53" by simp
  have qD: "filter isIndexQuery (snd ?runD) = [IndexQuery [1, 0] (JNum 5) (Inr (Some []))]"
    by (simp add: sample_zero_run)
  have kD: "k = JNum 5" if "IndexQuery v k r \<in> set (snd ?runD)" for v k r
  proof -
    from that have m: "IndexQuery v k r \<in> set (drop (length []) (snd ?runD))" by simp
    note t = topK_forwarding[OF runD jU m, THEN conjunct1, rule_format, OF disjI1, OF gU]
    from t[THEN conjunct2, THEN conjunct2, THEN conjunct1, rule_format, OF disjI1, OF unset]
    show ?thesis .
  qed
  have kU: "k = JNum 7" if "IndexQuery v k r \<in> set (snd ?runU)" for v k r
  proof -
    from that have m: "IndexQuery v k r \<in> set (drop (length []) (snd ?runU))" by simp
    note t = topK_forwarding[OF runU jU m, THEN conjunct1, rule_format, OF disjI1, OF gU]
    from t[THEN conjunct2, THEN conjunct2, THEN conjunct2, rule_format, OF c7 s7]
    show ?thesis by simp
  qed
  have kZ: "k = JNum 7" if "IndexQuery v k r \<in> set (snd ?runZ)" for v k r
  proof -
    from that have m: "IndexQuery v k r \<in> set (drop (length []) (snd ?runZ))" by simp
    note t = topK_forwarding[OF runZ jZ m, THEN conjunct1, rule_format, OF disjI2, OF gZ]
    from t[THEN conjunct2, THEN conjunct2, THEN conjunct2, rule_format, OF c7 s7]
    show ?thesis by simp
  qed
  have kP: "k = JNum 3" if "IndexQuery v k r \<in> set (snd ?runP)" for v k r
  proof -
    from that have m: "IndexQuery v k r \<in> set (drop (length []) (snd ?runP))" by simp
    from topK_forwarding[OF runP jP m, THEN conjunct2, rule_format, OF gP] show ?thesis .
  qed
  have kN: "k = JNum (- 3)" if "IndexQuery v k r \<in> set (snd ?runN)" for v k r
  proof -
    from that have m: "IndexQuery v k r \<in> set (drop (length []) (snd ?runN))" by simp
    from topK_forwarding[OF runN jN m, THEN conjunct2, rule_format, OF gN] show ?thesis .
  qed
  have all: "list_all (\<lambda>ev. case ev of IndexQuery v k r \<Rightarrow> k = c | _ \<Rightarrow> True) evs"
    if "\<And>v k r. IndexQuery v k r \<in> set evs \<Longrightarrow> k = c" for c evs
    using that unfolding list_all_iff by (auto split: event.splits)
  show ?thesis
    using unset seven qD sample_configured_run sample_negative_run
      all[of "snd ?runD", OF kD] all[of "snd ?runU", OF kU] all[of "snd ?runZ", OF kZ]
      all[of "snd ?runP", OF kP] all[of "snd ?runN", OF kN]
    by (intro conjI)
qed

section \<open>Properties of the ingestion worker\<close>

lemma length_documentOutcomes [simp]:
  "length (documentOutcomes x e ds h) = length ds"
  by (induction ds arbitrary: h) (auto split: prod.splits sum.splits)

lemma processDocument_history:
  "processDocument x e d h = (r, h1) \<Longrightarrow> \<exists>evs. h1 = h @ evs"
  by (auto simp: processDocument_def generateEmbeddingsBatch_def upsertVectors_def Let_def
      split: sum.splits option.splits)

lemma processDocument_Inr:
  "processDocument x e d h = (Inr u, h1) \<Longrightarrow>
   \<exists>embeddings ok.
     IndexUpsert (vectorDocuments d (chunkText (doc_content d) 1000) embeddings) None
       \<in> set (drop (length h) h1) \<and>
     SqlMarkIndexed (doc_id d) ok \<in> set (drop (length h) h1)"
  by (auto simp: processDocument_def generateEmbeddingsBatch_def upsertVectors_def Let_def
      split: sum.splits option.splits)

lemma processDocuments_history:
  "\<exists>evs. snd (processDocuments x e ds errs n h) = h @ evs"
proof (induction ds arbitrary: errs n h)
  case Nil
  then show ?case by simp
next
  case (Cons d ds)
  obtain r h1 where p: "processDocument x e d h = (r, h1)" by force
  from processDocument_history[OF p] obtain evs1 where h1: "h1 = h @ evs1" by blast
  show ?case
  proof (cases r)
    case (Inr u)
    from Cons.IH[of errs "n + 1" h1] obtain evs where
      "snd (processDocuments x e ds errs (n + 1) h1) = h1 @ evs" by blast
    with p Inr h1 show ?thesis by simp
  next
    case (Inl err)
    let ?errs = "errs @ [\<lparr> documentId = doc_id d, message = errorMessage err, timestamp = clock x h1 \<rparr>]"
    from Cons.IH[of ?errs n "h1 @ [Now (clock x h1)]"] obtain evs where
      "snd (processDocuments x e ds ?errs n (h1 @ [Now (clock x h1)])) = (h1 @ [Now (clock x h1)]) @ evs"
      by blast
    with p Inl h1 show ?thesis by (simp add: dateNow_def)
  qed
qed

lemma processDocuments_result:
  "fst (processDocuments x e ds errs n h) =
     (errs @ errorsOf (zip ds (documentOutcomes x e ds h)),
      n + length (filter (\<lambda>out. out = Processed) (documentOutcomes x e ds h)))"
proof (induction ds arbitrary: errs n h)
  case Nil
  then show ?case by simp
next
  case (Cons d ds)
  obtain r h1 where p: "processDocument x e d h = (r, h1)" by force
  show ?case
  proof (cases r)
    case (Inr u)
    with p Cons.IH[of errs "n + 1" h1] show ?thesis by simp
  next
    case (Inl err)
    with p Cons.IH[of _ n "h1 @ [Now (clock x h1)]"] show ?thesis by (simp add: dateNow_def)
  qed
qed

lemma drop_mono_set:
  "h1 = h @ evs \<Longrightarrow> ev \<in> set (drop (length h1) h2) \<Longrightarrow> ev \<in> set (drop (length h) h2)"
  using set_drop_subset_set_drop[of "length h" "length h1" h2] by auto

lemma processDocuments_upserts:
  "i < length ds \<Longrightarrow> documentOutcomes x e ds h ! i = Processed \<Longrightarrow>
   \<exists>embeddings ok.
     IndexUpsert (vectorDocuments (ds ! i) (chunkText (doc_content (ds ! i)) 1000) embeddings) None
       \<in> set (drop (length h) (snd (processDocuments x e ds errs n h))) \<and>
     SqlMarkIndexed (doc_id (ds ! i)) ok
       \<in> set (drop (length h) (snd (processDocuments x e ds errs n h)))"
proof (induction ds arbitrary: i errs n h)
  case Nil
  then show ?case by simp
next
  case (Cons d ds)
  obtain r h1 where p: "processDocument x e d h = (r, h1)" by force
  from processDocument_history[OF p] obtain evs1 where h1: "h1 = h @ evs1" by blast
  show ?case
  proof (cases r)
    case (Inr u)
    have s: "snd (processDocuments x e (d # ds) errs n h) = snd (processDocuments x e ds errs (n + 1) h1)"
      using p Inr by simp
    show ?thesis
    proof (cases i)
      case 0
      from processDocument_Inr[OF p[unfolded Inr]] obtain embeddings ok where
        u: "IndexUpsert (vectorDocuments d (chunkText (doc_content d) 1000) embeddings) None
              \<in> set (drop (length h) h1)"
           "SqlMarkIndexed (doc_id d) ok \<in> set (drop (length h) h1)" by blast
      from processDocuments_history[of x e ds errs "n + 1" h1] obtain evs where
        "snd (processDocuments x e ds errs (n + 1) h1) = h1 @ evs" by blast
      with u h1 s 0 show ?thesis by auto
    next
      case (Suc j)
      with Cons.prems p Inr have "j < length ds" "documentOutcomes x e ds h1 ! j = Processed"
        by simp_all
      from Cons.IH[OF this, of errs "n + 1"] obtain embeddings ok where
        "IndexUpsert (vectorDocuments (ds ! j) (chunkText (doc_content (ds ! j)) 1000) embeddings) None
           \<in> set (drop (length h1) (snd (processDocuments x e ds errs (n + 1) h1)))"
        "SqlMarkIndexed (doc_id (ds ! j)) ok
           \<in> set (drop (length h1) (snd (processDocuments x e ds errs (n + 1) h1)))" by blast
      from drop_mono_set[OF h1 this(1)] drop_mono_set[OF h1 this(2)] s Suc show ?thesis by auto
    qed
  next
    case (Inl err)
    let ?errs = "errs @ [\<lparr> documentId = doc_id d, message = errorMessage err, timestamp = clock x h1 \<rparr>]"
    let ?h2 = "h1 @ [Now (clock x h1)]"
    have s: "snd (processDocuments x e (d # ds) errs n h) = snd (processDocuments x e ds ?errs n ?h2)"
      using p Inl by (simp add: dateNow_def)
    have h2: "?h2 = h @ (evs1 @ [Now (clock x h1)])" using h1 by simp
    show ?thesis
    proof (cases i)
      case 0
      with Cons.prems p Inl show ?thesis by simp
    next
      case (Suc j)
      with Cons.prems p Inl have "j < length ds" "documentOutcomes x e ds ?h2 ! j = Processed"
        by simp_all
      from Cons.IH[OF this, of ?errs n] obtain embeddings ok where
        "IndexUpsert (vectorDocuments (ds ! j) (chunkText (doc_content (ds ! j)) 1000) embeddings) None
           \<in> set (drop (length ?h2) (snd (processDocuments x e ds ?errs n ?h2)))"
        "SqlMarkIndexed (doc_id (ds ! j)) ok
           \<in> set (drop (length ?h2) (snd (processDocuments x e ds ?errs n ?h2)))" by blast
      from drop_mono_set[OF h2 this(1)] drop_mono_set[OF h2 this(2)] s Suc show ?thesis by auto
    qed
  qed
qed

lemma errorsOf_ids:
  "length outs = length ds \<Longrightarrow>
   map documentId (errorsOf (zip ds outs)) =
     map (doc_id \<circ> fst) (filter (\<lambda>(d, out). out \<noteq> Processed) (zip ds outs))"
proof (induction ds arbitrary: outs)
  case Nil
  then show ?case by simp
next
  case (Cons d ds)
  then obtain out outs' where "outs = out # outs'" by (cases outs) auto
  with Cons show ?case by (cases out) simp_all
qed

lemma errorsOf_length:
  "length outs = length ds \<Longrightarrow>
   length (errorsOf (zip ds outs)) + length (filter (\<lambda>out. out = Processed) outs) = length ds"
proof (induction ds arbitrary: outs)
  case Nil
  then show ?case by simp
next
  case (Cons d ds)
  then obtain out outs' where o: "outs = out # outs'" by (cases outs) auto
  with Cons.prems have "length outs' = length ds" by simp
  from Cons.IH[OF this] o show ?case by (cases out) simp_all
qed

text \<open>
  When no cron secret is configured, or the request carries it, the handler is
  \<^const>\<open>runIngestionJob\<close> on the documents that it fetched.
\<close>

lemma POST_ingestion_authorized:
  assumes "\<forall>s. CRON_SECRET e = Some s \<longrightarrow> s = [] \<or> req_authorization req = Some (''Bearer '' @ s)"
  shows "POST_ingestion x e req h =
           (let h1 = h @ [Now (clock x h), Now (clock x (h @ [Now (clock x h)]))]
            in runIngestionJob x e (''ingest_'' @ showInt (clock x (h @ [Now (clock x h)])))
                 (clock x h) (fetch_documents x h1)
                 (h1 @ [FetchUnprocessedDocuments (fetch_documents x h1)]))"
  using assms
  by (cases "CRON_SECRET e")
     (auto simp: POST_ingestion_def newTimer_def dateNow_def fetchUnprocessedDocuments_def
        Let_def)

text \<open>
  Claim C5. The job answers with status 200 and an ingestion result whatever happens to
  the documents. Its error list has one entry for each failed document, with the id of
  the document, the message and the time, in the order of the documents;
  \<^verbatim>\<open>documentsProcessed\<close> counts the documents that did not fail; \<^verbatim>\<open>success\<close> holds exactly
  when the error list is empty; and for each document that did not fail the run upserted
  the vector records of its chunks and marked it as indexed.
\<close>

theorem ingestion_partial_failure:
  assumes "runIngestionJob x e job totalTimer documents h = (resp, h')"
    and "outs = documentOutcomes x e documents h"
  shows "status resp = 200 \<and>
         (\<exists>b. body resp = IngestionBody b \<and>
            length outs = length documents \<and>
            errors b = errorsOf (zip documents outs) \<and>
            map documentId (errors b) =
              map (doc_id \<circ> fst) (filter (\<lambda>(d, out). out \<noteq> Processed) (zip documents outs)) \<and>
            documentsProcessed b = length (filter (\<lambda>out. out = Processed) outs) \<and>
            documentsProcessed b + length (errors b) = length documents \<and>
            (success b \<longleftrightarrow> errors b = []) \<and>
            (\<forall>i<length documents. outs ! i = Processed \<longrightarrow>
               (\<exists>embeddings ok.
                  IndexUpsert (vectorDocuments (documents ! i)
                                 (chunkText (doc_content (documents ! i)) 1000) embeddings) None
                    \<in> set (drop (length h) h') \<and>
                  SqlMarkIndexed (doc_id (documents ! i)) ok \<in> set (drop (length h) h'))))"
proof (cases "documents = []")
  case True
  with assms show ?thesis by (auto simp: runIngestionJob_def elapsed_def dateNow_def)
next
  case False
  obtain errs n h1 where pd: "processDocuments x e documents [] 0 h = ((errs, n), h1)"
    by (metis surj_pair)
  from processDocuments_result[of x e documents "[]" 0 h] pd assms(2)
  have errs: "errs = errorsOf (zip documents outs)"
    and n: "n = length (filter (\<lambda>out. out = Processed) outs)" by simp_all
  from processDocuments_history[of x e documents "[]" 0 h] pd obtain evs where h1: "h1 = h @ evs"
    by auto
  let ?b = "\<lparr> success = (length errs = 0), jobId = job, documentsProcessed = n, errors = errs,
              duration = clock x (updateJobStatus x job n (length documents) errs h1) - totalTimer \<rparr>"
  from assms(1) False pd have resp: "status resp = 200" "body resp = IngestionBody ?b"
    and "\<exists>tl. h' = h1 @ tl"
    by (auto simp: runIngestionJob_def elapsed_def dateNow_def updateJobStatus_def Let_def)
  then obtain tl where h': "h' = h1 @ tl" by blast
  have len: "length outs = length documents" using assms(2) by simp
  have ups: "\<forall>i<length documents. outs ! i = Processed \<longrightarrow>
               (\<exists>embeddings ok.
                  IndexUpsert (vectorDocuments (documents ! i)
                                 (chunkText (doc_content (documents ! i)) 1000) embeddings) None
                    \<in> set (drop (length h) h') \<and>
                  SqlMarkIndexed (doc_id (documents ! i)) ok \<in> set (drop (length h) h'))"
  proof (intro allI impI)
    fix i assume i: "i < length documents" "outs ! i = Processed"
    from processDocuments_upserts[OF i(1) i(2)[unfolded assms(2)], of "[]" 0] pd
    obtain embeddings ok where
      "IndexUpsert (vectorDocuments (documents ! i)
                                 (chunkText (doc_content (documents ! i)) 1000) embeddings) None
         \<in> set (drop (length h) h1)"
      "SqlMarkIndexed (doc_id (documents ! i)) ok \<in> set (drop (length h) h1)" by auto
    then show "\<exists>embeddings ok.
                  IndexUpsert (vectorDocuments (documents ! i)
                                 (chunkText (doc_content (documents ! i)) 1000) embeddings) None
                    \<in> set (drop (length h) h') \<and>
                  SqlMarkIndexed (doc_id (documents ! i)) ok \<in> set (drop (length h) h')"
      using h' h1 by auto
  qed
  have "errors ?b = errorsOf (zip documents outs)" using errs by simp
  moreover have "map documentId (errors ?b) =
              map (doc_id \<circ> fst) (filter (\<lambda>(d, out). out \<noteq> Processed) (zip documents outs))"
    using errorsOf_ids[OF len] errs by simp
  moreover have "documentsProcessed ?b = length (filter (\<lambda>out. out = Processed) outs)"
    using n by simp
  moreover have "documentsProcessed ?b + length (errors ?b) = length documents"
    using errorsOf_length[OF len] errs n by simp
  moreover have "success ?b \<longleftrightarrow> errors ?b = []" by simp
  ultimately show ?thesis using resp len ups by blast
qed

lemmas ingestion_eval_defs =
  processDocument_def generateEmbeddingsBatch_def upsertVectors_def vectorDocuments_def
  vectorDocumentOf_def nthOpt_def setProp_def chunkText_def isSpace_def flakyExt_def
  sampleExt_def sampleEnv_def sampleDocumentA_def sampleDocumentB_def sampleDocumentC_def
  getOpenAIClient_def getPineconeIndex_def getPineconeClient_def env_unset_def
  getRAGConfig_def env_or_def Let_def

lemma sample_outcomes:
  "documentOutcomes flakyExt sampleEnv [sampleDocumentA, sampleDocumentB, sampleDocumentC] [] =
     [Processed, Failed ''Failed to generate batch embeddings: Error: 429'' 1040, Processed]"
  by (simp add: ingestion_eval_defs)

theorem ingestion_partial_failure_witness:
  "status (fst (runIngestionJob flakyExt sampleEnv ''ingest_990'' 990
                  [sampleDocumentA, sampleDocumentB, sampleDocumentC] [])) = 200 \<and>
   (\<exists>b. body (fst (runIngestionJob flakyExt sampleEnv ''ingest_990'' 990
                      [sampleDocumentA, sampleDocumentB, sampleDocumentC] [])) = IngestionBody b \<and>
      errors b =
        [\<lparr> documentId = ''b.txt'',
           message = ''Failed to generate batch embeddings: Error: 429'',
           timestamp = 1040 \<rparr>] \<and>
      documentsProcessed b = 2 \<and> \<not> success b)"
proof -
  let ?docs = "[sampleDocumentA, sampleDocumentB, sampleDocumentC]"
  let ?run = "runIngestionJob flakyExt sampleEnv ''ingest_990'' 990 ?docs []"
  have run: "?run = (fst ?run, snd ?run)" by simp
  from ingestion_partial_failure[OF run refl] obtain b where
    b: "status (fst ?run) = 200" "body (fst ?run) = IngestionBody b"
      "errors b = errorsOf (zip ?docs (documentOutcomes flakyExt sampleEnv ?docs []))"
      "documentsProcessed b
         = length (filter (\<lambda>out. out = Processed) (documentOutcomes flakyExt sampleEnv ?docs []))"
      "success b \<longleftrightarrow> errors b = []"
    by blast
  from b(3) have e: "errors b =
        [\<lparr> documentId = ''b.txt'',
           message = ''Failed to generate batch embeddings: Error: 429'',
           timestamp = 1040 \<rparr>]"
    unfolding sample_outcomes by (simp add: sampleDocumentB_def)
  from b(4) have n: "documentsProcessed b = 2" unfolding sample_outcomes by simp
  from b(5) e have "\<not> success b" by simp
  with b(1,2) e n show ?thesis by blast
qed

end
